theory Spec2Isabelle
  imports Complex_Main "HOL-Library.Char_ord" "HOL-Library.List_Lexorder"
begin

section \<open>Data model of the hierarchical classifier\<close>

text \<open>
  Class identifiers are Python strings or integers (\<^verbatim>\<open>root : integer, string\<close>).
  Every raise of the source is a value of \<open>error\<close>.
\<close>

datatype node = NStr string | NInt int

datatype error = KeyError | IndexError | ValueError | TypeError | UnboundLocalError
  | NotFittedError | AttributeError | NetworkXPointlessConcept

text \<open>
  The score arrays the local classifiers return: one- and two-dimensional numpy arrays.
  Indexing a two-dimensional array with one index yields a row, so the result of an
  index expression is a scalar or a row.
\<close>

datatype ndarray = Arr1 "real list" | Arr2 "real list list"

datatype npval = Scalar real | RowVal "real list"

text \<open>
  The training data \<open>X\<close>: the list of raw examples (\<^verbatim>\<open>feature_extraction="raw"\<close>) or the
  rows of a feature matrix. One example, as the walker hands it to a classifier, is a raw
  example or one row of the matrix.
\<close>

datatype 'x features = RawX "'x list" | CsrX "real list list"

datatype 'x example = RawEx 'x | RowEx "real list"

text \<open>
  The label array \<open>y\<close>: a one-dimensional array of integers or of strings, or the
  integer indicator matrix a MultiLabelBinarizer produced. \<open>yval\<close> is one entry of it,
  \<open>targets\<close> the target array handed to a local classifier's fit.
\<close>

datatype labels = IntLabels "int list" | StrLabels "string list" | RowLabels "int list list"

datatype yval = YNode node | YRow "int list"

datatype targets = Labels "node list" | Indicator "int list list"

subsection \<open>The classifier collaborator\<close>

text \<open>
  A fitted local classifier: its \<^verbatim>\<open>classes_\<close>, \<^verbatim>\<open>predict_proba\<close> (one row of scores per
  sample) and, when the estimator exposes one, \<^verbatim>\<open>decision_function\<close>. The source calls
  \<^verbatim>\<open>decision_function([x])\<close> in raw mode and \<^verbatim>\<open>decision_function(x)\<close> otherwise: both
  are the batch holding the one example.
\<close>

record 'x classifier =
  clf_classes :: "node list"
  clf_predict_proba :: "'x example \<Rightarrow> real list list"
  clf_decision_function :: "('x example \<Rightarrow> ndarray) option"

text \<open>
  An estimator object is what the trainer creates: the constant-prediction fallback
  \<^verbatim>\<open>DummyClassifier(strategy="constant", constant=c)\<close> or a clone of a base estimator
  \<open>'e\<close>. \<^verbatim>\<open>fit\<close> mutates the object, so an estimator is unfitted or fitted.
\<close>

datatype 'e est_spec = DummyClassifier yval | Clone 'e

datatype ('e, 'x) estimator = Unfitted "'e est_spec" | Fitted "'e est_spec" "'x classifier"

subsection \<open>The hierarchy graph and the model state\<close>

text \<open>
  The attribute dictionary of a graph node holds the keys \<^verbatim>\<open>"X"\<close>, \<^verbatim>\<open>CLASSIFIER\<close> and
  \<^verbatim>\<open>METAFEATURES\<close>, each present or absent.
\<close>

record metafeatures =
  n_samples :: nat
  n_targets :: nat

record ('e, 'x) attrs =
  attr_X :: "'x features option"
  attr_CLASSIFIER :: "('e, 'x) estimator option"
  attr_METAFEATURES :: "metafeatures option"

record ('e, 'x) digraph =
  nodes :: "node list"
  successors :: "node \<Rightarrow> node list"
  node_attrs :: "node \<Rightarrow> ('e, 'x) attrs"

datatype ('e, 'x) stopping = SCNone | SCFloat real
  | SCCallable "('e, 'x) attrs \<Rightarrow> node \<Rightarrow> npval \<Rightarrow> bool"

text \<open>
  The four shapes of \<^verbatim>\<open>base_estimator\<close>: none, a dictionary from nodes to estimators
  with its optional \<^verbatim>\<open>DEFAULT\<close> entry, one estimator, or a factory called with the node
  and the graph.
\<close>

datatype ('e, 'x) base_est = BENone | BEDict "node \<rightharpoonup> 'e" "'e option" | BEEstimator 'e
  | BEFactory "node \<Rightarrow> ('e, 'x) digraph \<Rightarrow> 'e"

record mlb =
  mlb_classes :: "node list"

text \<open>
  The object \<^verbatim>\<open>self\<close>: the constructor parameters, and the fitted attributes
  \<^verbatim>\<open>estimators_\<close>, \<^verbatim>\<open>graph_\<close>, \<^verbatim>\<open>is_tree_\<close> and \<^verbatim>\<open>classes_\<close> (written here without the
  trailing underscore).
\<close>

record ('e, 'x) hc =
  base_estimator :: "('e, 'x) base_est"
  class_hierarchy :: "(node \<times> node list) list"
  prediction_depth :: string
  algorithm :: string
  training_strategy :: "string option"
  stopping_criteria :: "('e, 'x) stopping"
  root :: node
  feature_extraction :: string
  mlb_opt :: "mlb option"
  mlb_prediction_threshold :: real
  use_decision_function :: bool
  estimators :: "node \<rightharpoonup> ('e, 'x) estimator"
  graph :: "('e, 'x) digraph"
  is_tree :: bool
  classes :: "node list"

text \<open>\<^verbatim>\<open>graph.nodes[n]\<close>: the attribute dictionary of a node, KeyError for a stranger.\<close>

definition nodes_getitem :: "('e, 'x) digraph \<Rightarrow> node \<Rightarrow> error + ('e, 'x) attrs" where
  "nodes_getitem g n = (if n \<in> set (nodes g) then Inr (node_attrs g n) else Inl KeyError)"

subsection \<open>numpy indexing\<close>

text \<open>\<^verbatim>\<open>np.argmax\<close>: the first position of the maximum of the flattened array.\<close>

fun flat :: "ndarray \<Rightarrow> real list" where
  "flat (Arr1 xs) = xs"
| "flat (Arr2 rows) = concat rows"

definition np_argmax :: "ndarray \<Rightarrow> error + nat" where
  "np_argmax a =
     (case flat a of
        [] \<Rightarrow> Inl ValueError
      | v # vs \<Rightarrow> Inr (length (takeWhile (\<lambda>u. u < fold max vs v) (v # vs))))"

text \<open>\<^verbatim>\<open>a[i]\<close> and \<^verbatim>\<open>a[0, j]\<close> for natural indices.\<close>

fun index1 :: "ndarray \<Rightarrow> nat \<Rightarrow> error + npval" where
  "index1 (Arr1 xs) i = (if i < length xs then Inr (Scalar (xs ! i)) else Inl IndexError)"
| "index1 (Arr2 rows) i = (if i < length rows then Inr (RowVal (rows ! i)) else Inl IndexError)"

fun index2 :: "ndarray \<Rightarrow> nat \<Rightarrow> error + real" where
  "index2 (Arr1 xs) j = Inl IndexError"
| "index2 (Arr2 rows) j =
     (case rows of
        [] \<Rightarrow> Inl IndexError
      | r # _ \<Rightarrow> if j < length r then Inr (r ! j) else Inl IndexError)"

text \<open>
  An integer index into an array of length \<open>n\<close>: negative indices count from the end.
  A string is no index.
\<close>

fun array_index :: "nat \<Rightarrow> node \<Rightarrow> error + nat" where
  "array_index n (NStr s) = Inl IndexError"
| "array_index n (NInt i) =
     (if 0 \<le> i \<and> i < int n then Inr (nat i)
      else if i < 0 \<and> - int n \<le> i then Inr (nat (int n + i))
      else Inl IndexError)"

text \<open>\<^verbatim>\<open>list.index\<close>: the first position of a value, ValueError when absent.\<close>

fun list_index :: "'a list \<Rightarrow> 'a \<Rightarrow> error + nat" where
  "list_index [] v = Inl ValueError"
| "list_index (u # us) v =
     (if u = v then Inr 0
      else case list_index us v of Inl e \<Rightarrow> Inl e | Inr i \<Rightarrow> Inr (Suc i))"

section \<open>The early-termination predicate\<close>

text \<open>
  \<^verbatim>\<open>score < self.stopping_criteria\<close> on a numpy score: a scalar compares as a number; a
  row compares elementwise, and the truth value of the resulting array is that of its
  only element, false for an empty array, and a ValueError for several elements.
\<close>

fun score_below :: "npval \<Rightarrow> real \<Rightarrow> error + bool" where
  "score_below (Scalar s) t = Inr (s < t)"
| "score_below (RowVal r) t =
     (case r of [] \<Rightarrow> Inr False | [s] \<Rightarrow> Inr (s < t) | _ \<Rightarrow> Inl ValueError)"

definition should_early_terminate ::
  "('e, 'x) hc \<Rightarrow> node \<Rightarrow> node \<Rightarrow> npval \<Rightarrow> error + bool" where
  "should_early_terminate self current_node prediction score =
     (if prediction_depth self \<noteq> ''nmlnp'' then Inr False
      else case stopping_criteria self of
        SCFloat t \<Rightarrow>
          (case score_below score t of
             Inl e \<Rightarrow> Inl e
           | Inr True \<Rightarrow> if current_node = root self then Inr False else Inr True
           | Inr False \<Rightarrow> Inr False)
      | SCCallable f \<Rightarrow>
          (case nodes_getitem (graph self) current_node of
             Inl e \<Rightarrow> Inl e
           | Inr a \<Rightarrow> Inr (f a prediction score))
      | SCNone \<Rightarrow> Inr False)"

section \<open>The prediction walker\<close>

text \<open>
  Scoring one example with the classifier of the current node: \<open>probs\<close>, the position
  \<open>argmax\<close> of its maximum and the \<open>score\<close> there, along the three branches of the
  source (decision function in raw mode, decision function otherwise, class
  probabilities).
\<close>

definition compute_scores ::
  "('e, 'x) hc \<Rightarrow> 'x classifier \<Rightarrow> 'x example \<Rightarrow> error + (ndarray \<times> nat \<times> npval)" where
  "compute_scores self clf x =
     (case (if use_decision_function self then clf_decision_function clf else None) of
        Some df \<Rightarrow>
          (if feature_extraction self = ''raw'' then
             (let probs = df x in
              case np_argmax probs of
                Inl e \<Rightarrow> Inl e
              | Inr argmax \<Rightarrow>
                  (case index2 probs argmax of
                     Inl e \<Rightarrow> Inl e
                   | Inr s \<Rightarrow> Inr (probs, argmax, Scalar s)))
           else
             (let probs = df x in
              case np_argmax probs of
                Inl e \<Rightarrow> Inl e
              | Inr argmax \<Rightarrow>
                  (case index1 probs argmax of
                     Inl e \<Rightarrow> Inl e
                   | Inr s \<Rightarrow> Inr (probs, argmax, s))))
      | None \<Rightarrow>
          (case clf_predict_proba clf x of
             [] \<Rightarrow> Inl IndexError
           | r # _ \<Rightarrow>
               (let probs = Arr1 r in
                case np_argmax probs of
                  Inl e \<Rightarrow> Inl e
                | Inr argmax \<Rightarrow>
                    (case index1 probs argmax of
                       Inl e \<Rightarrow> Inl e
                     | Inr s \<Rightarrow> Inr (probs, argmax, s)))))"

text \<open>
  The local score of class number \<open>i\<close> in single-label mode: \<^verbatim>\<open>probs[0, i]\<close> for a
  two-dimensional array of one row, \<^verbatim>\<open>probs[i]\<close> otherwise. Storing a row into one
  element of \<^verbatim>\<open>class_proba\<close> takes its only element and is a ValueError for any other
  row.
\<close>

definition local_score :: "ndarray \<Rightarrow> nat \<Rightarrow> error + real" where
  "local_score probs i =
     (case probs of
        Arr2 [r] \<Rightarrow> index2 probs i
      | _ \<Rightarrow>
          (case index1 probs i of
             Inl e \<Rightarrow> Inl e
           | Inr (Scalar s) \<Rightarrow> Inr s
           | Inr (RowVal [s]) \<Rightarrow> Inr s
           | Inr (RowVal _) \<Rightarrow> Inl ValueError))"

text \<open>
  The loop \<^verbatim>\<open>for local_class_idx, class_ in enumerate(clf.classes_)\<close>. Its state is
  \<^verbatim>\<open>class_proba\<close>, the variable \<^verbatim>\<open>prediction\<close> (unbound is \<open>None\<close>) and the list
  \<^verbatim>\<open>predictions\<close> of multi-label mode.
\<close>

fun scatter ::
  "('e, 'x) hc \<Rightarrow> ndarray \<Rightarrow> nat \<Rightarrow> nat \<Rightarrow> node list \<Rightarrow>
   real list \<times> node option \<times> node list \<Rightarrow> error + (real list \<times> node option \<times> node list)" where
  "scatter self probs argmax local_class_idx [] st = Inr st"
| "scatter self probs argmax local_class_idx (class # cs) (class_proba, prediction, predictions) =
     (case mlb_opt self of
        Some m \<Rightarrow>
          (case index2 probs local_class_idx of
             Inl e \<Rightarrow> Inl e
           | Inr v \<Rightarrow>
               (case array_index (length class_proba) class of
                  Inl e \<Rightarrow> Inl e
                | Inr class_idx \<Rightarrow>
                    (if v > mlb_prediction_threshold self then
                       (case array_index (length (mlb_classes m)) class of
                          Inl e \<Rightarrow> Inl e
                        | Inr k \<Rightarrow>
                            scatter self probs argmax (Suc local_class_idx) cs
                              (class_proba[class_idx := v], prediction,
                               predictions @ [mlb_classes m ! k]))
                     else
                       scatter self probs argmax (Suc local_class_idx) cs
                         (class_proba[class_idx := v], prediction, predictions))))
      | None \<Rightarrow>
          (case list_index (classes self) class of
             Inl e \<Rightarrow> Inl e
           | Inr class_idx \<Rightarrow>
               (case local_score probs local_class_idx of
                  Inl e \<Rightarrow> Inl e
                | Inr v \<Rightarrow>
                    (if class_idx < length class_proba then
                       scatter self probs argmax (Suc local_class_idx) cs
                         (class_proba[class_idx := v],
                          (if local_class_idx = argmax then Some class else prediction),
                          predictions)
                     else Inl IndexError))))"

text \<open>\<^verbatim>\<open>class_proba += preds_prob\<close> on two arrays of one length.\<close>

definition vec_add :: "real list \<Rightarrow> real list \<Rightarrow> error + real list" where
  "vec_add u v = (if length u = length v then Inr (map2 (+) u v) else Inl ValueError)"

text \<open>
  \<^verbatim>\<open>_recursive_predict\<close>. The walk returns \<^verbatim>\<open>(None, None)\<close> (here \<open>None\<close>) or a path and
  the class-probability vector, together with \<^verbatim>\<open>self\<close>. The \<^verbatim>\<open>while clf\<close> loop is
  \<open>walk_loop\<close>, the loop over \<^verbatim>\<open>predictions\<close> is \<open>fan_out\<close>. A local classifier may
  name any class as its prediction, so the loop need not stop: each iteration spends one
  unit of fuel, and \<open>None\<close> is a walk that ran out of it.
\<close>

type_synonym walk = "node list \<times> real list"

function recursive_predict ::
    "nat \<Rightarrow> ('e, 'x) hc \<Rightarrow> 'x example \<Rightarrow> node \<Rightarrow> (error + (walk option \<times> ('e, 'x) hc)) option"
  and walk_loop ::
    "nat \<Rightarrow> ('e, 'x) hc \<Rightarrow> 'x example \<Rightarrow> ('e, 'x) estimator \<Rightarrow> node list \<Rightarrow> real list \<Rightarrow>
     node option \<Rightarrow> (error + (walk \<times> ('e, 'x) hc)) option"
  and fan_out ::
    "nat \<Rightarrow> ('e, 'x) hc \<Rightarrow> 'x example \<Rightarrow> node list \<Rightarrow> node list \<Rightarrow> real list \<Rightarrow>
     (error + (walk \<times> ('e, 'x) hc)) option"
where
  "recursive_predict fuel self x rt =
     (case nodes_getitem (graph self) rt of
        Inl e \<Rightarrow> Some (Inl e)
      | Inr a \<Rightarrow>
          (case attr_CLASSIFIER a of
             None \<Rightarrow> Some (Inr (None, self))
           | Some clf \<Rightarrow>
               (case walk_loop fuel self x clf [rt] (replicate (length (classes self)) 0) None of
                  None \<Rightarrow> None
                | Some (Inl e) \<Rightarrow> Some (Inl e)
                | Some (Inr (w, self')) \<Rightarrow> Some (Inr (Some w, self')))))"
| "walk_loop 0 self x clf path class_proba prediction = None"
| "walk_loop (Suc fuel) self x clf path class_proba prediction =
     (case clf of
        Unfitted _ \<Rightarrow> Some (Inl NotFittedError)
      | Fitted _ c \<Rightarrow>
          (case compute_scores self c x of
             Inl e \<Rightarrow> Some (Inl e)
           | Inr (probs, argmax, score) \<Rightarrow>
               (case scatter self probs argmax 0 (clf_classes c)
                       (class_proba,
                        (if length (clf_classes c) = 1 then Some (clf_classes c ! 0)
                         else prediction),
                        []) of
                  Inl e \<Rightarrow> Some (Inl e)
                | Inr (class_proba', prediction', predictions) \<Rightarrow>
                    (case mlb_opt self of
                       None \<Rightarrow>
                         (case prediction' of
                            None \<Rightarrow> Some (Inl UnboundLocalError)
                          | Some p \<Rightarrow>
                              (case should_early_terminate self (last path) p score of
                                 Inl e \<Rightarrow> Some (Inl e)
                               | Inr True \<Rightarrow> Some (Inr ((path, class_proba'), self))
                               | Inr False \<Rightarrow>
                                   (case nodes_getitem (graph self) p of
                                      Inl e \<Rightarrow> Some (Inl e)
                                    | Inr a \<Rightarrow>
                                        (case attr_CLASSIFIER a of
                                           None \<Rightarrow> Some (Inr ((path @ [p], class_proba'), self))
                                         | Some clf' \<Rightarrow>
                                             walk_loop fuel self x clf' (path @ [p]) class_proba'
                                               (Some p)))))
                     | Some m \<Rightarrow> fan_out fuel self x predictions path class_proba'))))"
| "fan_out fuel self x [] path class_proba = Some (Inr ((path, class_proba), self))"
| "fan_out fuel self x (p # ps) path class_proba =
     (case recursive_predict fuel self x p of
        None \<Rightarrow> None
      | Some (Inl e) \<Rightarrow> Some (Inl e)
      | Some (Inr (None, self')) \<Rightarrow> fan_out fuel self' x ps (path @ [p]) class_proba
      | Some (Inr (Some (pred_path, preds_prob), self')) \<Rightarrow>
          (case vec_add class_proba preds_prob of
             Inl e \<Rightarrow> Some (Inl e)
           | Inr class_proba' \<Rightarrow>
               fan_out fuel self' x ps (path @ [p] @ pred_path) class_proba'))"
  by pat_completeness auto
termination
  by (relation "measures
        [\<lambda>a. case a of Inl (f, _) \<Rightarrow> f | Inr (Inl (f, _)) \<Rightarrow> f | Inr (Inr (f, _)) \<Rightarrow> f,
         \<lambda>a. case a of Inl _ \<Rightarrow> 1 | Inr (Inl _) \<Rightarrow> 0 | Inr (Inr _) \<Rightarrow> 2,
         \<lambda>a. case a of Inl _ \<Rightarrow> 0 | Inr (Inl _) \<Rightarrow> 0 | Inr (Inr (_, _, _, ps, _)) \<Rightarrow> length ps]")
    auto

text \<open>
  \<^verbatim>\<open>predict\<close> and \<^verbatim>\<open>predict_proba\<close> classify the examples of \<open>X\<close> one by one, from the
  root: the rows of the matrix, or \<^verbatim>\<open>X[i]\<close> in raw mode. Both are called on a fitted
  model. \<^verbatim>\<open>check_array\<close> refuses a list of raw examples and an empty matrix.
\<close>

datatype pred = PredLabel node | PredPath "node list option"

definition examples_of :: "('e, 'x) hc \<Rightarrow> 'x features \<Rightarrow> error + 'x example list" where
  "examples_of self X =
     (if feature_extraction self = ''raw'' then
        (case X of RawX xs \<Rightarrow> Inr (map RawEx xs) | CsrX rows \<Rightarrow> Inl TypeError)
      else
        (case X of
           RawX xs \<Rightarrow> Inl ValueError
         | CsrX rows \<Rightarrow> if rows = [] then Inl ValueError else Inr (map RowEx rows)))"

definition classify ::
  "nat \<Rightarrow> ('e, 'x) hc \<Rightarrow> 'x example \<Rightarrow> (error + (pred \<times> ('e, 'x) hc)) option" where
  "classify fuel self x =
     (case recursive_predict fuel self x (root self) of
        None \<Rightarrow> None
      | Some (Inl e) \<Rightarrow> Some (Inl e)
      | Some (Inr (r, self')) \<Rightarrow>
          (case mlb_opt self' of
             Some m \<Rightarrow> Some (Inr (PredPath (map_option fst r), self'))
           | None \<Rightarrow>
               (case r of
                  None \<Rightarrow> Some (Inl TypeError)
                | Some (path, _) \<Rightarrow> Some (Inr (PredLabel (last path), self')))))"

definition classify_proba ::
  "nat \<Rightarrow> ('e, 'x) hc \<Rightarrow> 'x example \<Rightarrow> (error + (real list option \<times> ('e, 'x) hc)) option" where
  "classify_proba fuel self x =
     (case recursive_predict fuel self x (root self) of
        None \<Rightarrow> None
      | Some (Inl e) \<Rightarrow> Some (Inl e)
      | Some (Inr (r, self')) \<Rightarrow> Some (Inr (map_option snd r, self')))"

fun along_rows ::
  "(('e, 'x) hc \<Rightarrow> 'x example \<Rightarrow> (error + ('r \<times> ('e, 'x) hc)) option) \<Rightarrow> ('e, 'x) hc \<Rightarrow>
   'x example list \<Rightarrow> (error + ('r list \<times> ('e, 'x) hc)) option" where
  "along_rows f self [] = Some (Inr ([], self))"
| "along_rows f self (x # xs) =
     (case f self x of
        None \<Rightarrow> None
      | Some (Inl e) \<Rightarrow> Some (Inl e)
      | Some (Inr (r, self')) \<Rightarrow>
          (case along_rows f self' xs of
             None \<Rightarrow> None
           | Some (Inl e) \<Rightarrow> Some (Inl e)
           | Some (Inr (rs, self'')) \<Rightarrow> Some (Inr (r # rs, self''))))"

definition predict ::
  "nat \<Rightarrow> ('e, 'x) hc \<Rightarrow> 'x features \<Rightarrow> (error + (pred list \<times> ('e, 'x) hc)) option" where
  "predict fuel self X =
     (case examples_of self X of
        Inl e \<Rightarrow> Some (Inl e)
      | Inr xs \<Rightarrow> along_rows (classify fuel) self xs)"

definition predict_proba ::
  "nat \<Rightarrow> ('e, 'x) hc \<Rightarrow> 'x features \<Rightarrow>
   (error + (real list option list \<times> ('e, 'x) hc)) option" where
  "predict_proba fuel self X =
     (case examples_of self X of
        Inl e \<Rightarrow> Some (Inl e)
      | Inr xs \<Rightarrow> along_rows (classify_proba fuel) self xs)"

section \<open>Collaborators of the fit\<close>

text \<open>
  What the fit calls and \<^verbatim>\<open>classifier.py\<close> does not define is a parameter of the model:
  \<^item> \<open>fit_est\<close>: \<^verbatim>\<open>clf.fit(X=X_, y=y_)\<close> of the estimator library, which may raise;
  \<^item> \<open>logistic_regression\<close>: the estimator \<^verbatim>\<open>_make_base_estimator\<close> constructs;
  \<^item> \<open>extract_rows_csr\<close>, \<open>nnz_rows_ix\<close>, \<open>flatten_list\<close>, \<open>apply_rollup_Xy\<close> and
    \<open>apply_rollup_Xy_raw\<close> of the array module;
  \<^item> \<open>rollup_nodes\<close> and \<open>make_flat_hierarchy\<close> of the graph module, which see the nodes
    and the successor lists of the graph;
  \<^item> \<open>validate_parameters\<close> of the validation module, \<open>Some\<close> error for a refused
    parameter assignment.
\<close>

record ('e, 'x) env =
  fit_est :: "'e est_spec \<Rightarrow> 'x features \<Rightarrow> targets \<Rightarrow> error + 'x classifier"
  logistic_regression :: 'e
  extract_rows_csr :: "real list list \<Rightarrow> nat list \<Rightarrow> real list list"
  nnz_rows_ix :: "real list list \<Rightarrow> nat list"
  flatten_list :: "node list list \<Rightarrow> node list"
  apply_rollup_Xy :: "real list list \<Rightarrow> node list list \<Rightarrow> real list list \<times> targets"
  apply_rollup_Xy_raw :: "'x list \<Rightarrow> node list list \<Rightarrow> 'x list \<times> targets"
  rollup_nodes ::
    "node list \<Rightarrow> (node \<Rightarrow> node list) \<Rightarrow> node \<Rightarrow> yval list \<Rightarrow> mlb option \<Rightarrow> node list list"
  make_flat_hierarchy :: "node list \<Rightarrow> node \<Rightarrow> (node \<times> node list) list"
  validate_parameters :: "('e, 'x) hc \<Rightarrow> error option"

subsection \<open>numpy and list operations on the training data\<close>

fun len_y :: "labels \<Rightarrow> nat" where
  "len_y (IntLabels xs) = length xs"
| "len_y (StrLabels xs) = length xs"
| "len_y (RowLabels rows) = length rows"

text \<open>\<^verbatim>\<open>y[i]\<close>, for \<open>i\<close> in range.\<close>

fun y_at :: "labels \<Rightarrow> nat \<Rightarrow> yval" where
  "y_at (IntLabels xs) i = YNode (NInt (xs ! i))"
| "y_at (StrLabels xs) i = YNode (NStr (xs ! i))"
| "y_at (RowLabels rows) i = YRow (rows ! i)"

text \<open>\<^verbatim>\<open>[y[idx] for idx in ixs]\<close> and \<^verbatim>\<open>y[ixs]\<close>: IndexError for an index out of range.\<close>

definition y_take :: "labels \<Rightarrow> nat list \<Rightarrow> error + yval list" where
  "y_take y ixs =
     (if \<forall>i \<in> set ixs. i < len_y y then Inr (map (y_at y) ixs) else Inl IndexError)"

text \<open>
  \<^verbatim>\<open>np.flatnonzero(y == node_id)\<close>: the positions, in the flattened array, of the entries
  equal to the node; none when the node is not of the array's type.
\<close>

definition positions :: "('a \<Rightarrow> bool) \<Rightarrow> 'a list \<Rightarrow> nat list" where
  "positions P xs = filter (\<lambda>i. P (xs ! i)) [0..<length xs]"

fun flatnonzero_eq :: "labels \<Rightarrow> node \<Rightarrow> nat list" where
  "flatnonzero_eq (IntLabels xs) (NInt k) = positions (\<lambda>v. v = k) xs"
| "flatnonzero_eq (StrLabels xs) (NStr s) = positions (\<lambda>v. v = s) xs"
| "flatnonzero_eq (RowLabels rows) (NInt k) = positions (\<lambda>v. v = k) (concat rows)"
| "flatnonzero_eq y n = []"

text \<open>\<^verbatim>\<open>np.issubdtype(type(node_id), y.dtype)\<close>.\<close>

fun issubdtype :: "node \<Rightarrow> labels \<Rightarrow> bool" where
  "issubdtype (NInt k) (IntLabels xs) = True"
| "issubdtype (NInt k) (RowLabels rows) = True"
| "issubdtype (NStr s) (StrLabels xs) = True"
| "issubdtype n y = False"

text \<open>\<^verbatim>\<open>len(np.unique(...))\<close> of entries of \<open>y\<close> and of a target array.\<close>

fun yval_entries :: "yval \<Rightarrow> node list" where
  "yval_entries (YNode n) = [n]"
| "yval_entries (YRow r) = map NInt r"

definition n_unique_yvals :: "yval list \<Rightarrow> nat" where
  "n_unique_yvals vs = length (remdups (concat (map yval_entries vs)))"

fun n_unique_targets :: "targets \<Rightarrow> nat" where
  "n_unique_targets (Labels ls) = length (remdups ls)"
| "n_unique_targets (Indicator m) = length (remdups (concat m))"

text \<open>\<^verbatim>\<open>list(np.unique(y))\<close>: the distinct entries in ascending order.\<close>

fun np_unique :: "labels \<Rightarrow> node list" where
  "np_unique (IntLabels xs) = map NInt (sort (remdups xs))"
| "np_unique (StrLabels xs) = map NStr (sort (remdups xs))"
| "np_unique (RowLabels rows) = map NInt (sort (remdups (concat rows)))"

text \<open>\<^verbatim>\<open>y_[0]\<close> of a target array that is not empty.\<close>

fun targets_first :: "targets \<Rightarrow> yval" where
  "targets_first (Labels ls) = YNode (hd ls)"
| "targets_first (Indicator m) = YRow (hd m)"

text \<open>
  The sum of two feature sets, as \<^verbatim>\<open>+\<close> and \<^verbatim>\<open>+=\<close> compute it: concatenation of two
  lists of raw examples, the entrywise sum of two matrices of one shape.
\<close>

definition same_shape :: "real list list \<Rightarrow> real list list \<Rightarrow> bool" where
  "same_shape a b \<longleftrightarrow> list_all2 (\<lambda>r s. length r = length s) a b"

fun features_add :: "'x features \<Rightarrow> 'x features \<Rightarrow> error + 'x features" where
  "features_add (RawX a) (RawX b) = Inr (RawX (a @ b))"
| "features_add (CsrX a) (CsrX b) =
     (if same_shape a b then Inr (CsrX (map2 (map2 (+)) a b)) else Inl ValueError)"
| "features_add a b = Inl TypeError"

text \<open>\<^verbatim>\<open>[X[ix] for ix in ixs]\<close> on a list and \<^verbatim>\<open>X[ixs, :]\<close> on a matrix.\<close>

definition take_rows :: "'a list \<Rightarrow> nat list \<Rightarrow> error + 'a list" where
  "take_rows xs ixs =
     (if \<forall>i \<in> set ixs. i < length xs then Inr (map ((!) xs) ixs) else Inl IndexError)"

text \<open>
  \<^verbatim>\<open>mlb.transform\<close> of the MultiLabelBinarizer: one indicator row per label collection,
  one column per class of the binarizer.
\<close>

definition mlb_transform :: "mlb \<Rightarrow> node list list \<Rightarrow> int list list" where
  "mlb_transform m yss = map (\<lambda>ys. map (\<lambda>c. if c \<in> set ys then 1 else 0) (mlb_classes m)) yss"

subsection \<open>Writing node attributes\<close>

definition set_attrs ::
  "('e, 'x) hc \<Rightarrow> node \<Rightarrow> (('e, 'x) attrs \<Rightarrow> ('e, 'x) attrs) \<Rightarrow> ('e, 'x) hc" where
  "set_attrs self n f =
     self\<lparr>graph := (graph self)\<lparr>node_attrs := (node_attrs (graph self))(n := f (node_attrs (graph self) n))\<rparr>\<rparr>"

definition set_X :: "('e, 'x) hc \<Rightarrow> node \<Rightarrow> 'x features \<Rightarrow> ('e, 'x) hc" where
  "set_X self n c = set_attrs self n (\<lambda>a. a\<lparr>attr_X := Some c\<rparr>)"

definition set_CLASSIFIER :: "('e, 'x) hc \<Rightarrow> node \<Rightarrow> ('e, 'x) estimator \<Rightarrow> ('e, 'x) hc" where
  "set_CLASSIFIER self n clf = set_attrs self n (\<lambda>a. a\<lparr>attr_CLASSIFIER := Some clf\<rparr>)"

definition set_METAFEATURES :: "('e, 'x) hc \<Rightarrow> node \<Rightarrow> metafeatures \<Rightarrow> ('e, 'x) hc" where
  "set_METAFEATURES self n m = set_attrs self n (\<lambda>a. a\<lparr>attr_METAFEATURES := Some m\<rparr>)"

section \<open>The feature builder\<close>

text \<open>
  \<^verbatim>\<open>_select_features\<close> is the identity hook. \<^verbatim>\<open>_build_features\<close> takes the rows at
  \<open>indices\<close>: of the list in raw mode, through \<open>extract_rows_csr\<close> otherwise. A sparse
  matrix in raw mode and a list of raw examples otherwise are refused with a TypeError.
\<close>

definition select_features :: "'x features \<Rightarrow> yval list \<Rightarrow> 'x features" where
  "select_features X y = X"

definition build_features ::
  "('e, 'x) env \<Rightarrow> ('e, 'x) hc \<Rightarrow> 'x features \<Rightarrow> labels \<Rightarrow> nat list \<Rightarrow> error + 'x features" where
  "build_features env self X y indices =
     (case (if feature_extraction self = ''raw'' then
              (case X of
                 RawX xs \<Rightarrow>
                   (case take_rows xs indices of Inl e \<Rightarrow> Inl e | Inr xs' \<Rightarrow> Inr (RawX xs'))
               | CsrX rows \<Rightarrow> Inl TypeError)
            else
              (case X of
                 RawX xs \<Rightarrow> Inl TypeError
               | CsrX rows \<Rightarrow> Inr (CsrX (extract_rows_csr env rows indices)))) of
        Inl e \<Rightarrow> Inl e
      | Inr X' \<Rightarrow>
          (case y_take y indices of
             Inl e \<Rightarrow> Inl e
           | Inr ys \<Rightarrow> Inr (select_features X' ys)))"

definition build_metafeatures ::
  "('e, 'x) env \<Rightarrow> ('e, 'x) hc \<Rightarrow> 'x features \<Rightarrow> labels \<Rightarrow> error + metafeatures" where
  "build_metafeatures env self X y =
     (if feature_extraction self = ''raw'' then
        (case X of
           RawX xs \<Rightarrow>
             Inr \<lparr>n_samples = length xs,
                  n_targets = n_unique_yvals (map (y_at y) [0..<len_y y])\<rparr>
         | CsrX rows \<Rightarrow> Inl TypeError)
      else
        (case X of
           RawX xs \<Rightarrow> Inl TypeError
         | CsrX rows \<Rightarrow>
             (let ix = nnz_rows_ix env rows in
              case y_take y ix of
                Inl e \<Rightarrow> Inl e
              | Inr ys \<Rightarrow> Inr \<lparr>n_samples = length ix, n_targets = n_unique_yvals ys\<rparr>)))"

text \<open>
  The empty feature set an internal node starts from: \<^verbatim>\<open>[]\<close> in raw mode, the zero
  matrix of the shape of \<open>X\<close> otherwise.
\<close>

definition empty_features :: "('e, 'x) hc \<Rightarrow> 'x features \<Rightarrow> error + 'x features" where
  "empty_features self X =
     (if feature_extraction self = ''raw'' then Inr (RawX [])
      else
        (case X of
           RawX xs \<Rightarrow> Inl AttributeError
         | CsrX rows \<Rightarrow> Inr (CsrX (map (\<lambda>r. replicate (length r) 0) rows))))"

text \<open>
  \<^verbatim>\<open>_recursive_build_features\<close>. The state is \<^verbatim>\<open>self\<close> and the list of the nodes whose
  features were built: one entry for each \<^verbatim>\<open>progress.update(1)\<close>, which the debug log
  names. \<open>build_children\<close> is the loop over the successors; \<^verbatim>\<open>nodes[node_id]["X"] += r\<close>
  reads the old value before the recursive call and stores the sum after it. Each level
  of the recursion spends one unit of fuel.
\<close>

type_synonym ('e, 'x) build_state = "('e, 'x) hc \<times> node list"

function recursive_build_features ::
    "nat \<Rightarrow> ('e, 'x) env \<Rightarrow> 'x features \<Rightarrow> labels \<Rightarrow> node \<Rightarrow> ('e, 'x) build_state \<Rightarrow>
     (error + ('x features \<times> ('e, 'x) build_state)) option"
  and build_children ::
    "nat \<Rightarrow> ('e, 'x) env \<Rightarrow> 'x features \<Rightarrow> labels \<Rightarrow> node \<Rightarrow> node list \<Rightarrow>
     ('e, 'x) build_state \<Rightarrow> (error + ('e, 'x) build_state) option"
where
  "recursive_build_features 0 env X y node_id st = None"
| "recursive_build_features (Suc fuel) env X y node_id (self, progress) =
     (case nodes_getitem (graph self) node_id of
        Inl e \<Rightarrow> Some (Inl e)
      | Inr a \<Rightarrow>
          (case attr_X a of
             Some c \<Rightarrow> Some (Inr (c, (self, progress)))
           | None \<Rightarrow>
               (if successors (graph self) node_id = [] then
                  (case build_features env self X y (flatnonzero_eq y node_id) of
                     Inl e \<Rightarrow> Some (Inl e)
                   | Inr c \<Rightarrow> Some (Inr (c, (set_X self node_id c, progress @ [node_id]))))
                else
                  (case empty_features self X of
                     Inl e \<Rightarrow> Some (Inl e)
                   | Inr c0 \<Rightarrow>
                       (case build_children fuel env X y node_id (successors (graph self) node_id)
                               (set_X self node_id c0, progress @ [node_id]) of
                          None \<Rightarrow> None
                        | Some (Inl e) \<Rightarrow> Some (Inl e)
                        | Some (Inr (self', progress')) \<Rightarrow>
                            (case attr_X (node_attrs (graph self') node_id) of
                               None \<Rightarrow> Some (Inl KeyError)
                             | Some c \<Rightarrow>
                                 (case build_metafeatures env self' c y of
                                    Inl e \<Rightarrow> Some (Inl e)
                                  | Inr m \<Rightarrow>
                                      (if \<not> issubdtype node_id y then
                                         Some (Inr (c, (set_METAFEATURES self' node_id m, progress')))
                                       else
                                         (case build_features env self' X y
                                                 (flatnonzero_eq y node_id) of
                                            Inl e \<Rightarrow> Some (Inl e)
                                          | Inr own \<Rightarrow>
                                              (case features_add c own of
                                                 Inl e \<Rightarrow> Some (Inl e)
                                               | Inr X_out \<Rightarrow>
                                                   Some (Inr (X_out,
                                                     (set_METAFEATURES self' node_id m,
                                                      progress')))))))))))))"
| "build_children fuel env X y node_id [] st = Some (Inr st)"
| "build_children fuel env X y node_id (child_node_id # cs) (self, progress) =
     (case attr_X (node_attrs (graph self) node_id) of
        None \<Rightarrow> Some (Inl KeyError)
      | Some old \<Rightarrow>
          (case recursive_build_features fuel env X y child_node_id (self, progress) of
             None \<Rightarrow> None
           | Some (Inl e) \<Rightarrow> Some (Inl e)
           | Some (Inr (r, (self', progress'))) \<Rightarrow>
               (case features_add old r of
                  Inl e \<Rightarrow> Some (Inl e)
                | Inr s \<Rightarrow> build_children fuel env X y node_id cs (set_X self' node_id s, progress'))))"
  by pat_completeness auto
termination
  by (relation "measures
        [\<lambda>a. case a of Inl (f, _) \<Rightarrow> f | Inr (f, _) \<Rightarrow> f,
         \<lambda>a. case a of Inl _ \<Rightarrow> 0 | Inr (_, _, _, _, _, cs, _) \<Rightarrow> Suc (length cs)]")
    auto

section \<open>The local classifier trainer\<close>

text \<open>
  \<^verbatim>\<open>_base_estimator_for\<close>: the estimator to clone for a node. A dictionary without the node
  and without a \<^verbatim>\<open>DEFAULT\<close> entry is a KeyError.
\<close>

definition base_estimator_for ::
  "('e, 'x) env \<Rightarrow> ('e, 'x) hc \<Rightarrow> node \<Rightarrow> error + 'e est_spec" where
  "base_estimator_for env self node_id =
     (case base_estimator self of
        BENone \<Rightarrow> Inr (Clone (logistic_regression env))
      | BEDict d dflt \<Rightarrow>
          (case d node_id of
             Some e \<Rightarrow> Inr (Clone e)
           | None \<Rightarrow> (case dflt of Some e \<Rightarrow> Inr (Clone e) | None \<Rightarrow> Inl KeyError))
      | BEEstimator e \<Rightarrow> Inr (Clone e)
      | BEFactory f \<Rightarrow> Inr (Clone (f node_id (graph self))))"

text \<open>
  The first half of \<^verbatim>\<open>_train_local_classifier\<close> (from \<^verbatim>\<open>if self.feature_extraction == "raw"\<close>
  to the rollup): the training pair \<open>(X', y')\<close> of a node. In raw mode the rows are the
  whole training set; otherwise they are the non-zero rows of the node's feature cache.
\<close>

definition select_rows ::
  "('e, 'x) env \<Rightarrow> ('e, 'x) hc \<Rightarrow> 'x features \<Rightarrow> node \<Rightarrow> error + ('x features \<times> nat list)" where
  "select_rows env self X node_id =
     (if feature_extraction self = ''raw'' then
        (case X of
           RawX xs \<Rightarrow> Inr (X, [0..<length xs])
         | CsrX rows \<Rightarrow> Inl TypeError)
      else
        (case nodes_getitem (graph self) node_id of
           Inl e \<Rightarrow> Inl e
         | Inr a \<Rightarrow>
             (case attr_X a of
                None \<Rightarrow> Inl KeyError
              | Some (RawX xs) \<Rightarrow> Inl TypeError
              | Some (CsrX rows) \<Rightarrow>
                  (let nnz_rows = nnz_rows_ix env rows in
                   case take_rows rows nnz_rows of
                     Inl e \<Rightarrow> Inl e
                   | Inr rs \<Rightarrow> Inr (CsrX rs, nnz_rows)))))"

definition training_set ::
  "('e, 'x) env \<Rightarrow> ('e, 'x) hc \<Rightarrow> 'x features \<Rightarrow> labels \<Rightarrow> node \<Rightarrow>
   error + ('x features \<times> targets)" where
  "training_set env self X y node_id =
     (case select_rows env self X node_id of
        Inl e \<Rightarrow> Inl e
      | Inr (X', nnz_rows) \<Rightarrow>
          (case y_take y nnz_rows of
             Inl e \<Rightarrow> Inl e
           | Inr ts \<Rightarrow>
               (let y_rolled_up =
                      rollup_nodes env (nodes (graph self)) (successors (graph self)) node_id ts
                        (mlb_opt self)
                in
                if is_tree self then
                  (case mlb_opt self of
                     None \<Rightarrow> Inr (X', Labels (flatten_list env y_rolled_up))
                   | Some m \<Rightarrow>
                       (let y1 = mlb_transform m y_rolled_up;
                            idx = positions (\<lambda>r. sum_list r > 0) y1
                        in
                        case X' of
                          RawX xs \<Rightarrow>
                            (case take_rows xs idx of
                               Inl e \<Rightarrow> Inl e
                             | Inr xs' \<Rightarrow> Inr (RawX xs', Indicator (map ((!) y1) idx)))
                        | CsrX rows \<Rightarrow>
                            (case take_rows rows idx of
                               Inl e \<Rightarrow> Inl e
                             | Inr rows' \<Rightarrow> Inr (CsrX rows', Indicator (map ((!) y1) idx)))))
                else
                  (case X' of
                     RawX xs \<Rightarrow>
                       (case apply_rollup_Xy_raw env xs y_rolled_up of
                          (xs', y') \<Rightarrow> Inr (RawX xs', y'))
                   | CsrX rows \<Rightarrow>
                       (case apply_rollup_Xy env rows y_rolled_up of
                          (rows', y') \<Rightarrow> Inr (CsrX rows', y'))))))"

text \<open>
  The second half (from \<^verbatim>\<open>num_targets = len(np.unique(y_))\<close> to the end): the decision
  between no classifier, the constant fallback and a base estimator, the fit, and the two
  stores, into the node's attributes and into \<^verbatim>\<open>estimators_\<close>.
\<close>

definition fit_and_store ::
  "('e, 'x) env \<Rightarrow> ('e, 'x) hc \<Rightarrow> node \<Rightarrow> 'e est_spec \<Rightarrow> 'x features \<Rightarrow> targets \<Rightarrow>
   error + ('e, 'x) hc" where
  "fit_and_store env self node_id clf X' y' =
     (case fit_est env clf X' y' of
        Inl e \<Rightarrow> Inl e
      | Inr c \<Rightarrow>
          (case nodes_getitem (graph self) node_id of
             Inl e \<Rightarrow> Inl e
           | Inr a \<Rightarrow>
               Inr ((set_CLASSIFIER self node_id (Fitted clf c))
                      \<lparr>estimators := (estimators self)(node_id \<mapsto> Fitted clf c)\<rparr>)))"

definition zero_rows :: "('e, 'x) hc \<Rightarrow> 'x features \<Rightarrow> error + bool" where
  "zero_rows self X' =
     (if feature_extraction self = ''preprocessed'' then
        (case X' of RawX xs \<Rightarrow> Inl AttributeError | CsrX rows \<Rightarrow> Inr (rows = []))
      else Inr False)"

definition train_on ::
  "('e, 'x) env \<Rightarrow> ('e, 'x) hc \<Rightarrow> node \<Rightarrow> 'x features \<Rightarrow> targets \<Rightarrow> error + ('e, 'x) hc" where
  "train_on env self node_id X' y' =
     (let num_targets = n_unique_targets y' in
      case zero_rows self X' of
        Inl e \<Rightarrow> Inl e
      | Inr True \<Rightarrow> Inr self
      | Inr False \<Rightarrow>
          (case (if num_targets = 1 then Inr (DummyClassifier (targets_first y'))
                 else base_estimator_for env self node_id) of
             Inl e \<Rightarrow> Inl e
           | Inr clf \<Rightarrow>
               (if feature_extraction self = ''raw'' then
                  (case X' of
                     CsrX rows \<Rightarrow> Inl TypeError
                   | RawX xs \<Rightarrow>
                       (if length xs > 0 then fit_and_store env self node_id clf X' y'
                        else Inr (self\<lparr>estimators := (estimators self)(node_id \<mapsto> Unfitted clf)\<rparr>)))
                else fit_and_store env self node_id clf X' y')))"

text \<open>
  \<^verbatim>\<open>_train_local_classifier\<close>: a leaf gets no classifier when the algorithm is
  \<^verbatim>\<open>"lcpn"\<close>; every other node is trained on its training pair.
\<close>

definition train_local_classifier ::
  "('e, 'x) env \<Rightarrow> ('e, 'x) hc \<Rightarrow> 'x features \<Rightarrow> labels \<Rightarrow> node \<Rightarrow> error + ('e, 'x) hc" where
  "train_local_classifier env self X y node_id =
     (if node_id \<in> set (nodes (graph self)) \<and> successors (graph self) node_id = [] \<and>
         algorithm self = ''lcpn''
      then Inr self
      else
        (case training_set env self X y node_id of
           Inl e \<Rightarrow> Inl e
         | Inr (X', y') \<Rightarrow> train_on env self node_id X' y'))"

text \<open>
  \<^verbatim>\<open>_recursive_train_local_classifiers\<close>, with the list of the nodes for which
  \<^verbatim>\<open>progress.update(1)\<close> was called.
\<close>

function recursive_train_local_classifiers ::
    "nat \<Rightarrow> ('e, 'x) env \<Rightarrow> 'x features \<Rightarrow> labels \<Rightarrow> node \<Rightarrow> ('e, 'x) build_state \<Rightarrow>
     (error + ('e, 'x) build_state) option"
  and train_children ::
    "nat \<Rightarrow> ('e, 'x) env \<Rightarrow> 'x features \<Rightarrow> labels \<Rightarrow> node list \<Rightarrow> ('e, 'x) build_state \<Rightarrow>
     (error + ('e, 'x) build_state) option"
where
  "recursive_train_local_classifiers 0 env X y node_id st = None"
| "recursive_train_local_classifiers (Suc fuel) env X y node_id (self, progress) =
     (case nodes_getitem (graph self) node_id of
        Inl e \<Rightarrow> Some (Inl e)
      | Inr a \<Rightarrow>
          (case attr_CLASSIFIER a of
             Some c \<Rightarrow> Some (Inr (self, progress))
           | None \<Rightarrow>
               (case train_local_classifier env self X y node_id of
                  Inl e \<Rightarrow> Some (Inl e)
                | Inr self' \<Rightarrow>
                    train_children fuel env X y (successors (graph self') node_id)
                      (self', progress @ [node_id]))))"
| "train_children fuel env X y [] st = Some (Inr st)"
| "train_children fuel env X y (child_node_id # cs) st =
     (case recursive_train_local_classifiers fuel env X y child_node_id st of
        None \<Rightarrow> None
      | Some (Inl e) \<Rightarrow> Some (Inl e)
      | Some (Inr st') \<Rightarrow> train_children fuel env X y cs st')"
  by pat_completeness auto
termination
  by (relation "measures
        [\<lambda>a. case a of Inl (f, _) \<Rightarrow> f | Inr (f, _) \<Rightarrow> f,
         \<lambda>a. case a of Inl _ \<Rightarrow> 0 | Inr (_, _, _, _, cs, _) \<Rightarrow> Suc (length cs)]")
    auto

section \<open>The fit\<close>

text \<open>
  The input checks of \<^verbatim>\<open>fit\<close>: in raw mode only that \<open>X\<close> and \<open>y\<close> have one length and
  \<open>y\<close> is not empty; otherwise \<^verbatim>\<open>check_X_y\<close>, which wants a matrix that is not empty and
  a one-dimensional \<open>y\<close> of its length.
\<close>

definition check_inputs :: "('e, 'x) hc \<Rightarrow> 'x features \<Rightarrow> labels \<Rightarrow> error option" where
  "check_inputs self X y =
     (if feature_extraction self = ''raw'' then
        (if len_y y = 0 then Some ValueError
         else case X of
           RawX xs \<Rightarrow> if length xs \<noteq> len_y y then Some ValueError else None
         | CsrX rows \<Rightarrow> Some TypeError)
      else
        (case X of
           RawX xs \<Rightarrow> Some ValueError
         | CsrX rows \<Rightarrow>
             (case y of
                RowLabels m \<Rightarrow> Some ValueError
              | _ \<Rightarrow> if rows = [] \<or> length rows \<noteq> len_y y then Some ValueError else None)))"

text \<open>
  \<^verbatim>\<open>DiGraph(class_hierarchy)\<close> for a dictionary of successor lists, given as its items:
  the keys become nodes first, then the successors in the order the edges name them, each
  once. No node has an attribute yet.
\<close>

definition uniq :: "'a list \<Rightarrow> 'a list" where
  "uniq xs = rev (remdups (rev xs))"

definition DiGraph :: "(node \<times> node list) list \<Rightarrow> ('e, 'x) digraph" where
  "DiGraph h =
     \<lparr>nodes = uniq (map fst h @ concat (map snd h)),
      successors = (\<lambda>n. uniq (concat (map snd (filter (\<lambda>kv. fst kv = n) h)))),
      node_attrs = (\<lambda>n. \<lparr>attr_X = None, attr_CLASSIFIER = None, attr_METAFEATURES = None\<rparr>)\<rparr>"

text \<open>
  \<^verbatim>\<open>networkx.is_tree\<close> on a directed graph: one edge less than nodes, and connected when
  the direction of the edges is forgotten. The graph without nodes is refused.
\<close>

definition neighbours :: "('e, 'x) digraph \<Rightarrow> node \<Rightarrow> node list" where
  "neighbours g v = successors g v @ filter (\<lambda>u. v \<in> set (successors g u)) (nodes g)"

fun reach :: "nat \<Rightarrow> ('e, 'x) digraph \<Rightarrow> node list \<Rightarrow> node list" where
  "reach 0 g vs = vs"
| "reach (Suc k) g vs = reach k g (uniq (vs @ concat (map (neighbours g) vs)))"

definition nx_is_tree :: "('e, 'x) digraph \<Rightarrow> error + bool" where
  "nx_is_tree g =
     (case nodes g of
        [] \<Rightarrow> Inl NetworkXPointlessConcept
      | v # vs \<Rightarrow>
          Inr (Suc (sum_list (map (\<lambda>n. length (successors g n)) (nodes g))) = length (nodes g) \<and>
               set (nodes g) \<subseteq> set (reach (length (nodes g)) g [v])))"

text \<open>
  \<^verbatim>\<open>fit\<close>. After the checks it builds the graph of the given hierarchy, or of the flat one
  over the labels of \<open>y\<close> when none is given, and sets \<^verbatim>\<open>graph_\<close>, \<^verbatim>\<open>is_tree_\<close> and
  \<^verbatim>\<open>classes_\<close> (\<open>fit_start\<close>); then the features are built in preprocessed mode, and
  the classifiers trained, both from the root.
\<close>

definition class_graph :: "('e, 'x) env \<Rightarrow> ('e, 'x) hc \<Rightarrow> labels \<Rightarrow> ('e, 'x) digraph" where
  "class_graph env self y =
     DiGraph (if class_hierarchy self \<noteq> [] then class_hierarchy self
              else make_flat_hierarchy env (np_unique y) (root self))"

definition fit_start :: "('e, 'x) env \<Rightarrow> ('e, 'x) hc \<Rightarrow> labels \<Rightarrow> bool \<Rightarrow> ('e, 'x) hc" where
  "fit_start env self y t =
     self\<lparr>graph := class_graph env self y, is_tree := t,
          classes := filter (\<lambda>n. n \<noteq> root self) (nodes (class_graph env self y))\<rparr>"

definition fit ::
  "nat \<Rightarrow> ('e, 'x) env \<Rightarrow> ('e, 'x) hc \<Rightarrow> 'x features \<Rightarrow> labels \<Rightarrow> (error + ('e, 'x) hc) option" where
  "fit fuel env self X y =
     (case check_inputs self X y of
        Some e \<Rightarrow> Some (Inl e)
      | None \<Rightarrow>
          (case validate_parameters env self of
             Some e \<Rightarrow> Some (Inl e)
           | None \<Rightarrow>
               (case nx_is_tree (class_graph env self y) of
                  Inl e \<Rightarrow> Some (Inl e)
                | Inr t \<Rightarrow>
                    (case (if feature_extraction self = ''preprocessed'' then
                             (case recursive_build_features fuel env X y (root self)
                                     (fit_start env self y t, []) of
                                None \<Rightarrow> None
                              | Some (Inl e) \<Rightarrow> Some (Inl e)
                              | Some (Inr (c, (self2, progress))) \<Rightarrow> Some (Inr self2))
                           else Some (Inr (fit_start env self y t))) of
                       None \<Rightarrow> None
                     | Some (Inl e) \<Rightarrow> Some (Inl e)
                     | Some (Inr self2) \<Rightarrow>
                         (case recursive_train_local_classifiers fuel env X y (root self)
                                 (self2, []) of
                            None \<Rightarrow> None
                          | Some (Inl e) \<Rightarrow> Some (Inl e)
                          | Some (Inr (self3, progress)) \<Rightarrow> Some (Inr self3))))))"

section \<open>Reference collaborators and example models\<close>

text \<open>
  Modelled from the spec: \<open>extract_rows_csr\<close> of the array module. A leaf's cache is
  "the subset of training rows whose label equals the leaf's identifier"; the result keeps
  the shape of \<open>X\<close> (the builder adds it to \<^verbatim>\<open>csr_matrix(X.shape)\<close> and the trainer
  indexes \<open>y\<close> by its non-zero rows), so the rows outside \<open>indices\<close> are zero.
\<close>

definition ref_extract_rows_csr :: "real list list \<Rightarrow> nat list \<Rightarrow> real list list" where
  "ref_extract_rows_csr rows ixs =
     map (\<lambda>i. if i \<in> set ixs then rows ! i else replicate (length (rows ! i)) 0)
       [0..<length rows]"

text \<open>
  Modelled from the spec: \<open>nnz_rows_ix\<close> of the array module, "the non-empty rows of the
  node's cached feature matrix": the indices of the rows with a non-zero entry.
\<close>

definition ref_nnz_rows_ix :: "real list list \<Rightarrow> nat list" where
  "ref_nnz_rows_ix rows = positions (list_ex (\<lambda>v. v \<noteq> 0)) rows"

text \<open>
  Modelled from the spec: \<open>rollup_nodes\<close> of the graph module. "Every row's rolled-up
  label is simply its ancestor-path entry at the node's child level -- i.e., which
  immediate child subtree the row's true leaf label descends from"; in the multi-label
  variant "a row may roll up into a set of children (one per label it's tagged with)".
  \<open>descend\<close> collects the nodes below a list of nodes.
\<close>

fun descend :: "nat \<Rightarrow> (node \<Rightarrow> node list) \<Rightarrow> node list \<Rightarrow> node list" where
  "descend 0 succs vs = vs"
| "descend (Suc k) succs vs = descend k succs (uniq (vs @ concat (map succs vs)))"

definition row_labels :: "mlb option \<Rightarrow> yval \<Rightarrow> node list" where
  "row_labels m t =
     (case t of
        YNode n \<Rightarrow> [n]
      | YRow r \<Rightarrow>
          (case m of
             None \<Rightarrow> []
           | Some b \<Rightarrow> map fst (filter (\<lambda>cv. snd cv > 0) (zip (mlb_classes b) r))))"

definition ref_rollup_nodes ::
  "node list \<Rightarrow> (node \<Rightarrow> node list) \<Rightarrow> node \<Rightarrow> yval list \<Rightarrow> mlb option \<Rightarrow> node list list" where
  "ref_rollup_nodes ns succs source ts m =
     map (\<lambda>t. filter (\<lambda>c. \<exists>l \<in> set (row_labels m t). l \<in> set (descend (length ns) succs [c]))
                 (succs source)) ts"

text \<open>
  Modelled from the spec: \<open>apply_rollup_Xy\<close> and \<open>apply_rollup_Xy_raw\<close> of the array
  module: "one (row, target) pair per qualifying child", flattened "into aligned
  feature-row/target arrays (duplicating feature rows as needed)".
\<close>

definition ref_apply_rollup :: "'a list \<Rightarrow> node list list \<Rightarrow> 'a list \<times> targets" where
  "ref_apply_rollup rows yss =
     (concat (map (\<lambda>rl. map (\<lambda>l. fst rl) (snd rl)) (zip rows yss)), Labels (concat yss))"

text \<open>
  Modelled from the spec: \<open>make_flat_hierarchy\<close> of the graph module, "a flat two-level
  tree (root \<rightarrow> every observed label)".
\<close>

definition ref_make_flat_hierarchy :: "node list \<Rightarrow> node \<Rightarrow> (node \<times> node list) list" where
  "ref_make_flat_hierarchy ls r = [(r, ls)]"

text \<open>
  Modelled from the spec: \<open>validate_parameters\<close> of the validation module. "Invalid
  parameter combinations (e.g., a training strategy set while algorithm \<noteq> per-node) fail
  fast"; the recognised options are those of the spec's configuration list.
\<close>

definition ref_validate_parameters :: "('e, 'x) hc \<Rightarrow> error option" where
  "ref_validate_parameters self =
     (if algorithm self \<notin> {''lcn'', ''lcpn''} \<or>
         prediction_depth self \<notin> {''mlnp'', ''nmlnp''} \<or>
         feature_extraction self \<notin> {''raw'', ''preprocessed''} \<or>
         (training_strategy self \<noteq> None \<and> algorithm self \<noteq> ''lcn'')
      then Some ValueError else None)"

definition ref_env ::
  "('e est_spec \<Rightarrow> 'x features \<Rightarrow> targets \<Rightarrow> error + 'x classifier) \<Rightarrow> 'e \<Rightarrow> ('e, 'x) env" where
  "ref_env fit_fn lr =
     \<lparr>fit_est = fit_fn,
      logistic_regression = lr,
      extract_rows_csr = ref_extract_rows_csr,
      nnz_rows_ix = ref_nnz_rows_ix,
      flatten_list = concat,
      apply_rollup_Xy = ref_apply_rollup,
      apply_rollup_Xy_raw = ref_apply_rollup,
      rollup_nodes = ref_rollup_nodes,
      make_flat_hierarchy = ref_make_flat_hierarchy,
      validate_parameters = ref_validate_parameters\<rparr>"

text \<open>
  The parameters \<^verbatim>\<open>__init__\<close> stores, with its defaults where the examples below do not
  choose; \<^verbatim>\<open>estimators_\<close> starts empty and the graph does not exist before a fit.
\<close>

definition init ::
  "(node \<times> node list) list \<Rightarrow> string \<Rightarrow> string \<Rightarrow> ('e, 'x) stopping \<Rightarrow> node \<Rightarrow> string \<Rightarrow>
   mlb option \<Rightarrow> real \<Rightarrow> bool \<Rightarrow> ('e, 'x) hc" where
  "init h depth alg stop r fe m thr udf =
     \<lparr>base_estimator = BENone, class_hierarchy = h, prediction_depth = depth, algorithm = alg,
      training_strategy = None, stopping_criteria = stop, root = r, feature_extraction = fe,
      mlb_opt = m, mlb_prediction_threshold = thr, use_decision_function = udf,
      estimators = Map.empty, graph = DiGraph [], is_tree = False, classes = []\<rparr>"

text \<open>
  A stand-in for a base estimator, for running the fit on examples. Its \<^verbatim>\<open>classes_\<close> are
  the distinct string labels in ascending order, as an estimator reports them; it scores
  a class 1 when the first training row equal to the example has that class, and scores
  all classes alike when no row is equal. The constant fallback scores its constant 1.
\<close>

fun string_classes :: "node list \<Rightarrow> node list" where
  "string_classes ls = map NStr (sort (remdups (concat (map (\<lambda>l. case l of NStr s \<Rightarrow> [s] | NInt i \<Rightarrow> []) ls))))"

fun lookup_label :: "'x example \<Rightarrow> 'x features \<Rightarrow> node list \<Rightarrow> node option" where
  "lookup_label (RowEx r) (CsrX rows) ls = map_option snd (find (\<lambda>rl. fst rl = r) (zip rows ls))"
| "lookup_label (RawEx v) (RawX xs) ls = map_option snd (find (\<lambda>rl. fst rl = v) (zip xs ls))"
| "lookup_label x X ls = None"

fun lookup_fit :: "'e est_spec \<Rightarrow> 'x features \<Rightarrow> targets \<Rightarrow> error + 'x classifier" where
  "lookup_fit (DummyClassifier (YNode c)) X (Labels ls) =
     Inr \<lparr>clf_classes = string_classes ls,
          clf_predict_proba = (\<lambda>x. [map (\<lambda>k. if k = c then 1 else 0) (string_classes ls)]),
          clf_decision_function = None\<rparr>"
| "lookup_fit (Clone e) X (Labels ls) =
     Inr \<lparr>clf_classes = string_classes ls,
          clf_predict_proba =
            (\<lambda>x. case lookup_label x X ls of
                    None \<Rightarrow> [map (\<lambda>k. 1 / real (length (string_classes ls))) (string_classes ls)]
                  | Some l \<Rightarrow> [map (\<lambda>k. if k = l then 1 else 0) (string_classes ls)]),
          clf_decision_function = None\<rparr>"
| "lookup_fit spec X y' = Inl ValueError"

text \<open>The hierarchy root \<rightarrow> {A, B}, A \<rightarrow> {A1, A2}, and three training rows.\<close>

definition hierarchy_AB :: "(node \<times> node list) list" where
  "hierarchy_AB =
     [(NStr ''root'', [NStr ''A'', NStr ''B'']), (NStr ''A'', [NStr ''A1'', NStr ''A2''])]"

definition rows_AB :: "real list list" where
  "rows_AB = [[1, 0], [0, 1], [1, 1]]"

definition labels_AB :: "string list" where
  "labels_AB = [''A1'', ''A2'', ''B'']"

text \<open>A classifier with fixed scores, whatever the example.\<close>

definition fixed_clf :: "node list \<Rightarrow> real list \<Rightarrow> 'x classifier" where
  "fixed_clf cs ps =
     \<lparr>clf_classes = cs, clf_predict_proba = (\<lambda>x. [ps]), clf_decision_function = None\<rparr>"

definition with_classifiers ::
  "('e, 'x) hc \<Rightarrow> (node \<times> ('e, 'x) estimator) list \<Rightarrow> ('e, 'x) hc" where
  "with_classifiers self cs = fold (\<lambda>nc s. set_CLASSIFIER s (fst nc) (snd nc)) cs self"

text \<open>
  A fitted model over that hierarchy with given classifiers, and the one the walker
  examples use: the root scores A 0.9 and B 0.1, the node A scores A1 and A2 0.5 each.
\<close>

definition fitted_AB ::
  "string \<Rightarrow> (unit, unit) stopping \<Rightarrow> (node \<times> (unit, unit) estimator) list \<Rightarrow> (unit, unit) hc" where
  "fitted_AB depth stop clfs =
     with_classifiers
       ((init hierarchy_AB depth ''lcpn'' stop (NStr ''root'') ''preprocessed'' None 0 False)
          \<lparr>graph := DiGraph hierarchy_AB, is_tree := True,
           classes := [NStr ''A'', NStr ''B'', NStr ''A1'', NStr ''A2'']\<rparr>)
       clfs"

definition walker_AB :: "string \<Rightarrow> (unit, unit) stopping \<Rightarrow> (unit, unit) hc" where
  "walker_AB depth stop =
     fitted_AB depth stop
       [(NStr ''root'', Fitted (Clone ()) (fixed_clf [NStr ''A'', NStr ''B''] [0.9, 0.1])),
        (NStr ''A'', Fitted (Clone ()) (fixed_clf [NStr ''A1'', NStr ''A2''] [0.5, 0.5]))]"

text \<open>What a test observes after a fit: the classes of a node's classifier, and a walk.\<close>

definition est_classes :: "('e, 'x) estimator \<Rightarrow> node list" where
  "est_classes e = (case e of Unfitted sp \<Rightarrow> [] | Fitted sp c \<Rightarrow> clf_classes c)"

definition classes_after_fit ::
  "(error + ('e, 'x) hc) option \<Rightarrow> node \<Rightarrow> node list option option" where
  "classes_after_fit r n =
     (case r of
        Some (Inr s) \<Rightarrow> Some (map_option est_classes (attr_CLASSIFIER (node_attrs (graph s) n)))
      | _ \<Rightarrow> None)"

definition cache_after_fit ::
  "(error + ('e, 'x) hc) option \<Rightarrow> node \<Rightarrow> 'x features option option" where
  "cache_after_fit r n =
     (case r of Some (Inr s) \<Rightarrow> Some (attr_X (node_attrs (graph s) n)) | _ \<Rightarrow> None)"

definition walk_after_fit ::
  "nat \<Rightarrow> (error + ('e, 'x) hc) option \<Rightarrow> 'x example \<Rightarrow> walk option option" where
  "walk_after_fit fuel r x =
     (case r of
        Some (Inr s) \<Rightarrow>
          (case recursive_predict fuel s x (root s) of
             Some (Inr (w, s')) \<Rightarrow> Some w
           | _ \<Rightarrow> None)
      | _ \<Rightarrow> None)"

text \<open>
  The unfitted model of the example scenario, and a fit of it on two rows labelled with
  the intermediate node A and with B: no row is labelled below A.
\<close>

definition lcpn_AB :: "(unit, unit) hc" where
  "lcpn_AB =
     init hierarchy_AB ''mlnp'' ''lcpn'' SCNone (NStr ''root'') ''preprocessed'' None 0 False"

definition starved_fit :: "(error + (unit, unit) hc) option" where
  "starved_fit =
     fit 3 (ref_env lookup_fit ()) lcpn_AB (CsrX [[1, 0], [0, 1]]) (StrLabels [''A'', ''B''])"

text \<open>
  A raw, multi-label model over the same hierarchy, before its classifiers are trained;
  the binarizer's columns are A, B, A1, A2.
\<close>

definition raw_mlb_AB :: "(unit, unit) hc" where
  "raw_mlb_AB =
     (init hierarchy_AB ''mlnp'' ''lcpn'' SCNone (NStr ''root'') ''raw''
        (Some \<lparr>mlb_classes = [NStr ''A'', NStr ''B'', NStr ''A1'', NStr ''A2'']\<rparr>) 0.3 True)
       \<lparr>graph := DiGraph hierarchy_AB, is_tree := True,
        classes := [NStr ''A'', NStr ''B'', NStr ''A1'', NStr ''A2'']\<rparr>"

section \<open>Describing a fan-out\<close>

text \<open>
  The words of the multi-label step: the fan-out targets are the classes of the
  binarizer named by the local classes whose score in the first row of \<open>probs\<close> is above
  the threshold, in the order of the local classes; \<open>sub_path\<close> and \<open>sub_proba\<close> are
  the path and the entries of the vector that the walk from a target returns (nothing
  and zero when it returns \<^verbatim>\<open>(None, None)\<close>).
\<close>

fun first_row :: "ndarray \<Rightarrow> real list" where
  "first_row (Arr2 (r # rs)) = r"
| "first_row a = []"

definition mlb_class :: "mlb \<Rightarrow> node \<Rightarrow> node" where
  "mlb_class m c =
     (case array_index (length (mlb_classes m)) c of Inr k \<Rightarrow> mlb_classes m ! k | Inl e \<Rightarrow> c)"

fun fan_out_targets :: "mlb \<Rightarrow> real \<Rightarrow> real list \<Rightarrow> nat \<Rightarrow> node list \<Rightarrow> node list" where
  "fan_out_targets m thr row i [] = []"
| "fan_out_targets m thr row i (c # cs) =
     (if row ! i > thr then [mlb_class m c] else []) @ fan_out_targets m thr row (Suc i) cs"

definition sub_path :: "nat \<Rightarrow> ('e, 'x) hc \<Rightarrow> 'x example \<Rightarrow> node \<Rightarrow> node list" where
  "sub_path fuel self x p =
     (case recursive_predict fuel self x p of
        Some (Inr (Some (pp, pv), s)) \<Rightarrow> pp
      | _ \<Rightarrow> [])"

definition sub_proba :: "nat \<Rightarrow> ('e, 'x) hc \<Rightarrow> 'x example \<Rightarrow> node \<Rightarrow> nat \<Rightarrow> real" where
  "sub_proba fuel self x p k =
     (case recursive_predict fuel self x p of
        Some (Inr (Some (pp, pv), s)) \<Rightarrow> pv ! k
      | _ \<Rightarrow> 0)"

text \<open>
  A fitted multi-label model over the example hierarchy, scored by decision functions:
  the root scores its children A and B 0.4 and 0.1, and the nodes A and B score below
  them.
\<close>

definition scored_clf :: "node list \<Rightarrow> real list \<Rightarrow> 'x classifier" where
  "scored_clf cs ps =
     \<lparr>clf_classes = cs, clf_predict_proba = (\<lambda>x. [ps]),
      clf_decision_function = Some (\<lambda>x. Arr2 [ps])\<rparr>"

definition mlb_walker_AB :: "(unit, unit) hc" where
  "mlb_walker_AB =
     with_classifiers raw_mlb_AB
       [(NStr ''root'', Fitted (Clone ()) (scored_clf [NInt 0, NInt 1] [0.4, 0.1])),
        (NStr ''A'', Fitted (Clone ()) (scored_clf [NInt 2, NInt 3] [0.2, 0.1])),
        (NStr ''B'', Fitted (Clone ()) (scored_clf [NInt 1] [0.5]))]"

text \<open>
  A fitted multi-label model over the DAG root \<rightarrow> {A, B}, A \<rightarrow> {C}, B \<rightarrow> {C}: the root
  scores A 0.6 and B 0.5, the node A scores C 0.7 and the node B scores C 0.2.
\<close>

definition hierarchy_DAG :: "(node \<times> node list) list" where
  "hierarchy_DAG =
     [(NStr ''root'', [NStr ''A'', NStr ''B'']), (NStr ''A'', [NStr ''C'']),
      (NStr ''B'', [NStr ''C''])]"

definition dag_walker :: "(unit, unit) hc" where
  "dag_walker =
     with_classifiers
       ((init hierarchy_DAG ''mlnp'' ''lcpn'' SCNone (NStr ''root'') ''raw''
           (Some \<lparr>mlb_classes = [NStr ''A'', NStr ''B'', NStr ''C'']\<rparr>) 0.3 True)
          \<lparr>graph := DiGraph hierarchy_DAG, is_tree := False,
           classes := [NStr ''A'', NStr ''B'', NStr ''C'']\<rparr>)
       [(NStr ''root'', Fitted (Clone ()) (scored_clf [NInt 0, NInt 1] [0.6, 0.5])),
        (NStr ''A'', Fitted (Clone ()) (scored_clf [NInt 2] [0.7])),
        (NStr ''B'', Fitted (Clone ()) (scored_clf [NInt 2] [0.2]))]"

section \<open>Describing the feature builder\<close>

text \<open>
  The words of the builder's contract. \<open>cache\<close> reads a node's \<^verbatim>\<open>"X"\<close> attribute and
  \<open>own_rows\<close> are the training rows labelled with the node itself. \<open>sum_features\<close> adds
  a list of feature sets to a first one. The value the builder returns for a node is its
  cache or, for an internal node of the label array's type, its cache plus its own rows.
\<close>

definition cache :: "('e, 'x) hc \<Rightarrow> node \<Rightarrow> 'x features option" where
  "cache self n = attr_X (node_attrs (graph self) n)"

definition own_rows ::
  "('e, 'x) env \<Rightarrow> ('e, 'x) hc \<Rightarrow> 'x features \<Rightarrow> labels \<Rightarrow> node \<Rightarrow> error + 'x features" where
  "own_rows env self X y n = build_features env self X y (flatnonzero_eq y n)"

fun sum_features :: "'x features \<Rightarrow> 'x features list \<Rightarrow> error + 'x features" where
  "sum_features c [] = Inr c"
| "sum_features c (r # rs) =
     (case features_add c r of Inl e \<Rightarrow> Inl e | Inr s \<Rightarrow> sum_features s rs)"

definition returned_for ::
  "('e, 'x) env \<Rightarrow> ('e, 'x) hc \<Rightarrow> 'x features \<Rightarrow> labels \<Rightarrow> node \<Rightarrow> 'x features \<Rightarrow> bool" where
  "returned_for env self X y n r =
     (case cache self n of
        None \<Rightarrow> False
      | Some c \<Rightarrow>
          r = c \<or>
          (issubdtype n y \<and> successors (graph self) n \<noteq> [] \<and>
           (case own_rows env self X y n of
              Inl e \<Rightarrow> False
            | Inr own \<Rightarrow> features_add c own = Inr r)))"

text \<open>
  Two runs of the builder: over the DAG, from the root, on two rows labelled C; and over
  the example hierarchy, from the node A, on two rows labelled A and B.
\<close>

definition dag_lcpn :: "(unit, unit) hc" where
  "dag_lcpn =
     init hierarchy_DAG ''mlnp'' ''lcpn'' SCNone (NStr ''root'') ''preprocessed'' None 0 False"

definition dag_build :: "(error + (unit features \<times> (unit, unit) build_state)) option" where
  "dag_build =
     recursive_build_features 3 (ref_env lookup_fit ()) (CsrX [[1, 0], [0, 1]])
       (StrLabels [''C'', ''C'']) (NStr ''root'')
       (fit_start (ref_env lookup_fit ()) dag_lcpn (StrLabels [''C'', ''C'']) False, [])"

definition starved_build :: "(error + (unit features \<times> (unit, unit) build_state)) option" where
  "starved_build =
     recursive_build_features (Suc (Suc 0)) (ref_env lookup_fit ()) (CsrX [[1, 0], [0, 1]])
       (StrLabels [''A'', ''B'']) (NStr ''A'') (walker_AB ''mlnp'' SCNone, [])"

text \<open>
  The calls of \<^verbatim>\<open>_recursive_build_features\<close> that one call makes, itself included:
  \<open>visit_in env X y fuel n s pr fuel' n' s' pr'\<close> says that the call for \<open>n'\<close> in the
  state \<open>(s', pr')\<close> is the call for \<open>n\<close> in the state \<open>(s, pr)\<close> or is made, directly or
  through further calls, while that call runs. A call for a node without a cache stores
  the empty feature set and calls each successor in the state that the loop over the
  successors before it has reached.
\<close>

inductive visit_in ::
  "('e, 'x) env \<Rightarrow> 'x features \<Rightarrow> labels \<Rightarrow> nat \<Rightarrow> node \<Rightarrow> ('e, 'x) hc \<Rightarrow> node list \<Rightarrow>
   nat \<Rightarrow> node \<Rightarrow> ('e, 'x) hc \<Rightarrow> node list \<Rightarrow> bool"
  for env :: "('e, 'x) env" and X :: "'x features" and y :: labels
where
  here: "visit_in env X y fuel n s pr fuel n s pr"
| below:
    "n \<in> set (nodes (graph s)) \<Longrightarrow> cache s n = None \<Longrightarrow>
     successors (graph s) n = before @ ch # after \<Longrightarrow>
     empty_features s X = Inr c0 \<Longrightarrow>
     build_children fuel env X y n before (set_X s n c0, pr @ [n]) = Some (Inr (s1, p1)) \<Longrightarrow>
     visit_in env X y fuel ch s1 p1 fuel' n' s' pr' \<Longrightarrow>
     visit_in env X y (Suc fuel) n s pr fuel' n' s' pr'"

text \<open>What a test observes of a node's cache after the loop over some successors.\<close>

definition cache_after_loop ::
  "(error + ('e, 'x) build_state) option \<Rightarrow> node \<Rightarrow> 'x features option option" where
  "cache_after_loop r n = (case r of Some (Inr (s, p)) \<Rightarrow> Some (cache s n) | _ \<Rightarrow> None)"

text \<open>
  The fit of the example scenario: three rows labelled A1, A2 and B; and the state in
  which the builder starts.
\<close>

definition scenario_fit :: "(error + (unit, unit) hc) option" where
  "scenario_fit = fit 3 (ref_env lookup_fit ()) lcpn_AB (CsrX rows_AB) (StrLabels labels_AB)"

definition scenario_start :: "(unit, unit) hc" where
  "scenario_start = fit_start (ref_env lookup_fit ()) lcpn_AB (StrLabels labels_AB) True"

section \<open>Describing the caches over string labels\<close>

text \<open>
  For a matrix \<open>rows\<close> with string labels \<open>ys\<close> and a set \<open>L\<close> of labels: the matrix that
  keeps the rows whose label is in \<open>L\<close> and is zero elsewhere, the indices of its non-zero
  rows, and the metafeatures the builder computes from it.
\<close>

definition masked :: "string set \<Rightarrow> real list list \<Rightarrow> string list \<Rightarrow> real list list" where
  "masked L rows ys =
     map (\<lambda>i. if ys ! i \<in> L then rows ! i else replicate (length (rows ! i)) 0) [0..<length rows]"




text \<open>
  The two stores that end the training of a node: the fitted estimator becomes the node's
  \<^verbatim>\<open>CLASSIFIER\<close> attribute and its entry in \<^verbatim>\<open>estimators_\<close>.
\<close>

definition stored :: "('e, 'x) hc \<Rightarrow> node \<Rightarrow> ('e, 'x) estimator \<Rightarrow> ('e, 'x) hc" where
  "stored self n e = (set_CLASSIFIER self n e)\<lparr>estimators := (estimators self)(n \<mapsto> e)\<rparr>"

section \<open>Facts about the example models\<close>

lemma walker_AB_fields:
  "mlb_opt (walker_AB d s) = None"
  "prediction_depth (walker_AB d s) = d"
  "stopping_criteria (walker_AB d s) = s"
  "root (walker_AB d s) = NStr ''root''"
  "use_decision_function (walker_AB d s) = False"
  "feature_extraction (walker_AB d s) = ''preprocessed''"
  "classes (walker_AB d s) = [NStr ''A'', NStr ''B'', NStr ''A1'', NStr ''A2'']"
  by (simp_all add: walker_AB_def fitted_AB_def with_classifiers_def set_CLASSIFIER_def
      set_attrs_def init_def)

lemma walker_AB_nodes:
  "nodes (graph (walker_AB d s)) =
     [NStr ''root'', NStr ''A'', NStr ''B'', NStr ''A1'', NStr ''A2'']"
  by (simp add: walker_AB_def fitted_AB_def with_classifiers_def set_CLASSIFIER_def
      set_attrs_def init_def DiGraph_def hierarchy_AB_def uniq_def)

lemma walker_AB_clf:
  "attr_CLASSIFIER (node_attrs (graph (walker_AB d s)) (NStr ''root'')) =
     Some (Fitted (Clone ()) (fixed_clf [NStr ''A'', NStr ''B''] [0.9, 0.1]))"
  "attr_CLASSIFIER (node_attrs (graph (walker_AB d s)) (NStr ''A'')) =
     Some (Fitted (Clone ()) (fixed_clf [NStr ''A1'', NStr ''A2''] [0.5, 0.5]))"
  "attr_CLASSIFIER (node_attrs (graph (walker_AB d s)) (NStr ''B'')) = None"
  "attr_CLASSIFIER (node_attrs (graph (walker_AB d s)) (NStr ''A1'')) = None"
  "attr_CLASSIFIER (node_attrs (graph (walker_AB d s)) (NStr ''A2'')) = None"
  by (simp_all add: walker_AB_def fitted_AB_def with_classifiers_def set_CLASSIFIER_def
      set_attrs_def init_def DiGraph_def)

lemmas walker_AB_simps =
  walker_AB_fields walker_AB_nodes walker_AB_clf nodes_getitem_def compute_scores_def
  fixed_clf_def np_argmax_def local_score_def should_early_terminate_def

lemma mlb_walker_AB_fields:
  "mlb_opt mlb_walker_AB = Some \<lparr>mlb_classes = [NStr ''A'', NStr ''B'', NStr ''A1'', NStr ''A2'']\<rparr>"
  "prediction_depth mlb_walker_AB = ''mlnp''"
  "root mlb_walker_AB = NStr ''root''"
  "use_decision_function mlb_walker_AB = True"
  "feature_extraction mlb_walker_AB = ''raw''"
  "mlb_prediction_threshold mlb_walker_AB = 0.3"
  "classes mlb_walker_AB = [NStr ''A'', NStr ''B'', NStr ''A1'', NStr ''A2'']"
  by (simp_all add: mlb_walker_AB_def raw_mlb_AB_def with_classifiers_def set_CLASSIFIER_def
      set_attrs_def init_def)

lemma mlb_walker_AB_nodes:
  "nodes (graph mlb_walker_AB) =
     [NStr ''root'', NStr ''A'', NStr ''B'', NStr ''A1'', NStr ''A2'']"
  by (simp add: mlb_walker_AB_def raw_mlb_AB_def with_classifiers_def set_CLASSIFIER_def
      set_attrs_def init_def DiGraph_def hierarchy_AB_def uniq_def)

lemma mlb_walker_AB_clf:
  "attr_CLASSIFIER (node_attrs (graph mlb_walker_AB) (NStr ''root'')) =
     Some (Fitted (Clone ()) (scored_clf [NInt 0, NInt 1] [0.4, 0.1]))"
  "attr_CLASSIFIER (node_attrs (graph mlb_walker_AB) (NStr ''A'')) =
     Some (Fitted (Clone ()) (scored_clf [NInt 2, NInt 3] [0.2, 0.1]))"
  "attr_CLASSIFIER (node_attrs (graph mlb_walker_AB) (NStr ''B'')) =
     Some (Fitted (Clone ()) (scored_clf [NInt 1] [0.5]))"
  by (simp_all add: mlb_walker_AB_def raw_mlb_AB_def with_classifiers_def set_CLASSIFIER_def
      set_attrs_def init_def DiGraph_def)

lemmas mlb_walker_AB_simps =
  mlb_walker_AB_fields mlb_walker_AB_nodes mlb_walker_AB_clf nodes_getitem_def compute_scores_def
  scored_clf_def np_argmax_def vec_add_def

lemma dag_walker_fields:
  "mlb_opt dag_walker = Some \<lparr>mlb_classes = [NStr ''A'', NStr ''B'', NStr ''C'']\<rparr>"
  "prediction_depth dag_walker = ''mlnp''"
  "root dag_walker = NStr ''root''"
  "use_decision_function dag_walker = True"
  "feature_extraction dag_walker = ''raw''"
  "mlb_prediction_threshold dag_walker = 0.3"
  "classes dag_walker = [NStr ''A'', NStr ''B'', NStr ''C'']"
  by (simp_all add: dag_walker_def with_classifiers_def set_CLASSIFIER_def
      set_attrs_def init_def)

lemma dag_walker_nodes:
  "nodes (graph dag_walker) = [NStr ''root'', NStr ''A'', NStr ''B'', NStr ''C'']"
  by (simp add: dag_walker_def with_classifiers_def set_CLASSIFIER_def
      set_attrs_def init_def DiGraph_def hierarchy_DAG_def uniq_def)

lemma dag_walker_clf:
  "attr_CLASSIFIER (node_attrs (graph dag_walker) (NStr ''root'')) =
     Some (Fitted (Clone ()) (scored_clf [NInt 0, NInt 1] [0.6, 0.5]))"
  "attr_CLASSIFIER (node_attrs (graph dag_walker) (NStr ''A'')) =
     Some (Fitted (Clone ()) (scored_clf [NInt 2] [0.7]))"
  "attr_CLASSIFIER (node_attrs (graph dag_walker) (NStr ''B'')) =
     Some (Fitted (Clone ()) (scored_clf [NInt 2] [0.2]))"
  "attr_CLASSIFIER (node_attrs (graph dag_walker) (NStr ''C'')) = None"
  by (simp_all add: dag_walker_def with_classifiers_def set_CLASSIFIER_def
      set_attrs_def init_def DiGraph_def)

lemmas dag_walker_simps =
  dag_walker_fields dag_walker_nodes dag_walker_clf nodes_getitem_def compute_scores_def
  scored_clf_def np_argmax_def vec_add_def

lemma walker_AB_cache: "cache (walker_AB d s) n = None"
  by (simp add: cache_def walker_AB_def fitted_AB_def with_classifiers_def set_CLASSIFIER_def
      set_attrs_def init_def DiGraph_def)

lemma walker_AB_successors:
  "successors (graph (walker_AB d s)) (NStr ''A'') = [NStr ''A1'', NStr ''A2'']"
  by (simp add: walker_AB_def fitted_AB_def with_classifiers_def set_CLASSIFIER_def
      set_attrs_def init_def DiGraph_def hierarchy_AB_def uniq_def)

lemma run_value:
  "map_option (map_sum id fst) m = Some (Inr a) \<Longrightarrow> \<exists>s p. m = Some (Inr (a, (s, p)))"
proof -
  assume a: "map_option (map_sum id fst) m = Some (Inr a)"
  then obtain v where m: "m = Some v" by (cases m) auto
  with a obtain w where v: "v = Inr w" by (cases v) auto
  obtain r s p where w: "w = (r, (s, p))" by (cases w) auto
  from a m v w show ?thesis by simp
qed

lemma run_progress:
  "map_option (map_sum id (\<lambda>r. snd (snd r))) m = Some (Inr p) \<Longrightarrow>
   \<exists>r s. m = Some (Inr (r, (s, p)))"
proof -
  assume a: "map_option (map_sum id (\<lambda>r. snd (snd r))) m = Some (Inr p)"
  then obtain v where m: "m = Some v" by (cases m) auto
  with a obtain w where v: "v = Inr w" by (cases v) auto
  obtain r s q where w: "w = (r, (s, q))" by (cases w) auto
  from a m v w show ?thesis by simp
qed

section \<open>The prediction walk reads the fitted state only\<close>

lemma walker_frame:
  "(\<forall>r self'. recursive_predict fuel self x rt = Some (Inr (r, self')) \<longrightarrow> self' = self)"
  "(\<forall>w self'. walk_loop fuel self x clf path cp pr = Some (Inr (w, self')) \<longrightarrow> self' = self)"
  "(\<forall>w self'. fan_out fuel self x ps path cp = Some (Inr (w, self')) \<longrightarrow> self' = self)"
proof (induction fuel self x rt and fuel self x clf path cp pr and fuel self x ps path cp
       rule: recursive_predict_walk_loop_fan_out.induct)
  case (1 fuel self x rt)
  then show ?case
    by (simp split: sum.splits option.splits)
next
  case (2 self x clf path class_proba prediction)
  then show ?case by simp
next
  case (3 fuel self x clf path class_proba prediction)
  show ?case
  proof (intro allI impI)
    fix w s'
    assume run: "walk_loop (Suc fuel) self x clf path class_proba prediction = Some (Inr (w, s'))"
    then obtain sp c where clf: "clf = Fitted sp c"
      by (cases clf) auto
    from run clf obtain probs argmax score where cs: "compute_scores self c x = Inr (probs, argmax, score)"
      by (cases "compute_scores self c x") auto
    from run clf cs obtain cp' pr' preds where
      sc: "scatter self probs argmax 0 (clf_classes c)
             (class_proba, (if length (clf_classes c) = 1 then Some (clf_classes c ! 0) else prediction), [])
           = Inr (cp', pr', preds)"
      by (cases "scatter self probs argmax 0 (clf_classes c)
             (class_proba, (if length (clf_classes c) = 1 then Some (clf_classes c ! 0) else prediction), [])") auto
    show "s' = self"
    proof (cases "mlb_opt self")
      case None
      with run clf cs sc obtain p where p: "pr' = Some p"
        by (cases pr') auto
      show ?thesis
      proof (cases "should_early_terminate self (last path) p score")
        case (Inl e)
        with run clf cs sc None p show ?thesis by simp
      next
        case (Inr b)
        show ?thesis
        proof (cases b)
          case True
          with run clf cs sc None p Inr show ?thesis by simp
        next
          case False
          show ?thesis
          proof (cases "nodes_getitem (graph self) p")
            case (Inl e)
            with run clf cs sc None p Inr False show ?thesis by simp
          next
            case a: (Inr a)
            show ?thesis
            proof (cases "attr_CLASSIFIER a")
              case N2: None
              with run clf cs sc None p Inr False a show ?thesis by simp
            next
              case (Some clf')
              with run clf cs sc None p Inr False a
              have "walk_loop fuel self x clf' (path @ [p]) cp' (Some p) = Some (Inr (w, s'))"
                by simp
              moreover from False have bF: "b = False" by simp
              ultimately show ?thesis
                using "3.IH"(1)[OF clf cs refl refl sc refl refl None p Inr bF a Some] by blast
            qed
          qed
        qed
      qed
    next
      case (Some m)
      with run clf cs sc have "fan_out fuel self x preds path cp' = Some (Inr (w, s'))"
        by simp
      with "3.IH"(2)[OF clf cs refl refl sc refl refl Some] show ?thesis by blast
    qed
  qed
next
  case (4 fuel self x path class_proba)
  then show ?case by simp
next
  case (5 fuel self x p ps path class_proba)
  show ?case
  proof (intro allI impI)
    fix w s'
    assume run: "fan_out fuel self x (p # ps) path class_proba = Some (Inr (w, s'))"
    then obtain r s1 where rp: "recursive_predict fuel self x p = Some (Inr (r, s1))"
      by (auto split: option.splits sum.splits)
    with "5.IH"(1) have s1: "s1 = self" by blast
    show "s' = self"
    proof (cases r)
      case None
      with run rp have "fan_out fuel s1 x ps (path @ [p]) class_proba = Some (Inr (w, s'))"
        by simp
      with "5.IH"(2)[OF rp refl refl] None s1 show ?thesis by blast
    next
      case (Some pw)
      obtain pp pv where pw: "pw = (pp, pv)" by (cases pw)
      with run rp Some obtain cp' where va: "vec_add class_proba pv = Inr cp'"
        and fo: "fan_out fuel s1 x ps (path @ [p] @ pp) cp' = Some (Inr (w, s'))"
        by (auto split: sum.splits)
      from "5.IH"(3)[OF rp refl refl] Some pw va fo s1 show ?thesis by blast
    qed
  qed
qed


lemma along_rows_frame:
  assumes f: "\<And>s x r s'. f s x = Some (Inr (r, s')) \<Longrightarrow> s' = s"
  shows "along_rows f self xs = Some (Inr (rs, self')) \<Longrightarrow> self' = self"
proof (induction xs arbitrary: self rs)
  case Nil
  then show ?case by simp
next
  case (Cons x xs)
  from Cons.prems obtain r s1 where fx: "f self x = Some (Inr (r, s1))"
    by (auto split: option.splits sum.splits)
  then have s1: "s1 = self" by (rule f)
  from Cons.prems fx obtain rs' s2 where "along_rows f s1 xs = Some (Inr (rs', s2))" and "s2 = self'"
    by (auto split: option.splits sum.splits)
  with Cons.IH s1 show ?case by blast
qed

lemma classify_frame: "classify fuel s x = Some (Inr (r, s')) \<Longrightarrow> s' = s"
  unfolding classify_def
  using walker_frame(1)[of fuel s x "root s"]
  by (auto split: option.splits sum.splits prod.splits)

lemma classify_proba_frame: "classify_proba fuel s x = Some (Inr (r, s')) \<Longrightarrow> s' = s"
  unfolding classify_proba_def
  using walker_frame(1)[of fuel s x "root s"]
  by (auto split: option.splits sum.splits prod.splits)


text \<open>
  C8. For every model and example, a walk that returns, and \<^verbatim>\<open>predict\<close> and
  \<^verbatim>\<open>predict_proba\<close> over any \<open>X\<close>, return \<^verbatim>\<open>self\<close> as it was: the node attributes
  (feature caches, classifiers, metafeatures), the topology of the graph and the
  \<^verbatim>\<open>estimators_\<close> mapping are those of before the call.
\<close>

theorem prediction_preserves_fitted_state:
  "(recursive_predict fuel self x n = Some (Inr (r, s1)) \<longrightarrow> s1 = self) \<and>
   (predict fuel self X = Some (Inr (ps, s2)) \<longrightarrow> s2 = self) \<and>
   (predict_proba fuel self X = Some (Inr (qs, s3)) \<longrightarrow> s3 = self)"
proof (intro conjI impI)
  assume "recursive_predict fuel self x n = Some (Inr (r, s1))"
  with walker_frame(1) show "s1 = self" by blast
next
  assume "predict fuel self X = Some (Inr (ps, s2))"
  then obtain xs where "along_rows (classify fuel) self xs = Some (Inr (ps, s2))"
    by (auto simp: predict_def split: sum.splits)
  then show "s2 = self"
    by (rule along_rows_frame[rotated]) (rule classify_frame)
next
  assume "predict_proba fuel self X = Some (Inr (qs, s3))"
  then obtain xs where "along_rows (classify_proba fuel) self xs = Some (Inr (qs, s3))"
    by (auto simp: predict_proba_def split: sum.splits)
  then show "s3 = self"
    by (rule along_rows_frame[rotated]) (rule classify_proba_frame)
qed

theorem prediction_preserves_fitted_state_witness:
  "predict (Suc (Suc 0)) (walker_AB ''mlnp'' SCNone) (CsrX [[1, 0]]) =
     Some (Inr ([PredLabel (NStr ''A1'')], walker_AB ''mlnp'' SCNone)) \<and>
   predict_proba (Suc (Suc 0)) (walker_AB ''mlnp'' SCNone) (CsrX [[1, 0]]) =
     Some (Inr ([Some [0.9, 0.1, 0.5, 0.5]], walker_AB ''mlnp'' SCNone)) \<and>
   recursive_predict (Suc (Suc 0)) (walker_AB ''mlnp'' SCNone) (RowEx [1, 0]) (NStr ''root'') =
     Some (Inr (Some ([NStr ''root'', NStr ''A'', NStr ''A1''], [0.9, 0.1, 0.5, 0.5]),
                walker_AB ''mlnp'' SCNone))"
  using prediction_preserves_fitted_state
    [of "Suc (Suc 0)" "walker_AB ''mlnp'' SCNone" "RowEx [1, 0]" "NStr ''root''"
        "Some ([NStr ''root'', NStr ''A'', NStr ''A1''], [0.9, 0.1, 0.5, 0.5])"
        "walker_AB ''mlnp'' SCNone" "CsrX [[1, 0]]" "[PredLabel (NStr ''A1'')]"
        "walker_AB ''mlnp'' SCNone" "[Some [0.9, 0.1, 0.5, 0.5]]" "walker_AB ''mlnp'' SCNone"]
  by (simp add: walker_AB_simps predict_def predict_proba_def examples_of_def classify_def
      classify_proba_def)

section \<open>Early termination\<close>

text \<open>
  C3. The early-termination predicate is false for every node and score when
  \<^verbatim>\<open>prediction_depth\<close> is not \<^verbatim>\<open>"nmlnp"\<close>. With \<^verbatim>\<open>"nmlnp"\<close> and a float threshold it is
  true exactly when the score is below the threshold and the current node is not the
  root; the walk of single-label mode then stops at the current node, its path not
  extended.
\<close>

theorem should_early_terminate_float:
  "(prediction_depth self \<noteq> ''nmlnp'' \<longrightarrow> should_early_terminate self n p sc = Inr False) \<and>
   (prediction_depth self = ''nmlnp'' \<and> stopping_criteria self = SCFloat t \<longrightarrow>
      should_early_terminate self n p (Scalar s) = Inr (s < t \<and> n \<noteq> root self)) \<and>
   (prediction_depth self = ''nmlnp'' \<and> stopping_criteria self = SCFloat t \<and>
    mlb_opt self = None \<and> s < t \<and> last path \<noteq> root self \<and>
    compute_scores self c x = Inr (probs, argmax, Scalar s) \<and>
    scatter self probs argmax 0 (clf_classes c)
      (cp, (if length (clf_classes c) = 1 then Some (clf_classes c ! 0) else pr), []) =
      Inr (cp', Some q, preds) \<longrightarrow>
      walk_loop (Suc fuel) self x (Fitted sp c) path cp pr = Some (Inr ((path, cp'), self)))"
  by (auto simp: should_early_terminate_def split: bool.splits)

theorem should_early_terminate_float_witness:
  "should_early_terminate (walker_AB ''mlnp'' (SCFloat 0.99)) (NStr ''A'') (NStr ''A1'')
     (Scalar 0.5) = Inr False \<and>
   should_early_terminate (walker_AB ''nmlnp'' (SCFloat 0.99)) (NStr ''A'') (NStr ''A1'')
     (Scalar 0.5) = Inr True \<and>
   should_early_terminate (walker_AB ''nmlnp'' (SCFloat 0.99)) (NStr ''root'') (NStr ''A'')
     (Scalar 0.5) = Inr False \<and>
   should_early_terminate (walker_AB ''nmlnp'' (SCFloat 0.99)) (NStr ''A'') (NStr ''A1'')
     (Scalar 0.995) = Inr False \<and>
   recursive_predict (Suc (Suc 0)) (walker_AB ''nmlnp'' (SCFloat 0.99)) (RowEx [1, 0])
     (NStr ''root'') =
     Some (Inr (Some ([NStr ''root'', NStr ''A''], [0.9, 0.1, 0.5, 0.5]),
                walker_AB ''nmlnp'' (SCFloat 0.99)))"
  using should_early_terminate_float
    [of "walker_AB ''nmlnp'' (SCFloat 0.99)" "NStr ''A''" "NStr ''A1''" "Scalar 0.5" "0.99" "0.5"
        "[NStr ''root'', NStr ''A'']" "fixed_clf [NStr ''A1'', NStr ''A2''] [0.5, 0.5]"
        "RowEx [1, 0]" "Arr1 [0.5, 0.5]" 0 "[0.9, 0.1, 0, 0]" "Some (NStr ''A'')"
        "[0.9, 0.1, 0.5, 0.5]" "NStr ''A1''" "[]" 0 "Clone ()"]
  by (simp add: walker_AB_simps)

section \<open>A node without a classifier\<close>

text \<open>
  C6. The walk at a node of the graph that holds no fitted classifier returns
  \<^verbatim>\<open>(None, None)\<close> at once, whatever the fuel, and raises nothing. Reached as a fan-out
  target, such a node adds only itself to the path; reached as the prediction of
  single-label mode, it ends the walk with the path extended by it.
\<close>

theorem recursive_predict_without_classifier:
  assumes "rt \<in> set (nodes (graph self))"
    and "attr_CLASSIFIER (node_attrs (graph self) rt) = None"
  shows "recursive_predict fuel self x rt = Some (Inr (None, self)) \<and>
    fan_out fuel self x [rt] path cp = Some (Inr ((path @ [rt], cp), self)) \<and>
    (mlb_opt self = None \<and> compute_scores self c x = Inr (probs, argmax, score) \<and>
     scatter self probs argmax 0 (clf_classes c)
       (cp, (if length (clf_classes c) = 1 then Some (clf_classes c ! 0) else pr), []) =
       Inr (cp', Some rt, preds) \<and>
     should_early_terminate self (last path) rt score = Inr False \<longrightarrow>
       walk_loop (Suc fuel) self x (Fitted sp c) path cp pr =
         Some (Inr ((path @ [rt], cp'), self)))"
  using assms by (simp add: nodes_getitem_def)

theorem recursive_predict_without_classifier_witness:
  "NStr ''B'' \<in> set (nodes (graph (walker_AB ''mlnp'' SCNone))) \<and>
   attr_CLASSIFIER (node_attrs (graph (walker_AB ''mlnp'' SCNone)) (NStr ''B'')) = None \<and>
   recursive_predict 0 (walker_AB ''mlnp'' SCNone) (RowEx [0, 1]) (NStr ''B'') =
     Some (Inr (None, walker_AB ''mlnp'' SCNone))"
  using recursive_predict_without_classifier
    [of "NStr ''B''" "walker_AB ''mlnp'' SCNone" 0 "RowEx [0, 1]"]
  by (simp add: walker_AB_nodes walker_AB_clf)

section \<open>The decision table of the trainer\<close>

lemma single_target_labels:
  assumes "length (remdups ls) = 1"
  shows "set ls = {hd ls}"
proof -
  from assms have "card (set ls) = 1"
    by (simp add: card_set)
  then obtain a where a: "set ls = {a}"
    by (auto simp: card_1_singleton_iff)
  then have "ls \<noteq> []" by auto
  then have "hd ls \<in> set ls" by simp
  with a show ?thesis by auto
qed


text \<open>
  C10. In raw mode, when the training set selected for a node has no rows, the trainer
  fits nothing and stores nothing in the node's attributes, and still records the
  estimator, unfitted, in \<^verbatim>\<open>estimators_\<close> under the node: the graph is the one of
  before, so the two can disagree about which nodes have a classifier.
\<close>

theorem raw_empty_training_set_keeps_unfitted_estimator:
  assumes "feature_extraction self = ''raw''"
    and "training_set env self X y node_id = Inr (RawX [], y')"
    and "\<not> (node_id \<in> set (nodes (graph self)) \<and> successors (graph self) node_id = [] \<and>
            algorithm self = ''lcpn'')"
    and "(if n_unique_targets y' = 1 then Inr (DummyClassifier (targets_first y'))
          else base_estimator_for env self node_id) = Inr clf"
  shows "train_local_classifier env self X y node_id =
           Inr (self\<lparr>estimators := (estimators self)(node_id \<mapsto> Unfitted clf)\<rparr>)"
  using assms
  by (auto simp: train_local_classifier_def train_on_def zero_rows_def)


theorem raw_empty_training_set_keeps_unfitted_estimator_witness:
  "feature_extraction raw_mlb_AB = ''raw'' \<and>
   training_set (ref_env lookup_fit ()) raw_mlb_AB (RawX [(), ()])
     (RowLabels [[0, 1, 0, 0], [0, 1, 0, 0]]) (NStr ''A'') = Inr (RawX [], Indicator []) \<and>
   train_local_classifier (ref_env lookup_fit ()) raw_mlb_AB (RawX [(), ()])
     (RowLabels [[0, 1, 0, 0], [0, 1, 0, 0]]) (NStr ''A'') =
     Inr (raw_mlb_AB\<lparr>estimators := (estimators raw_mlb_AB)(NStr ''A'' \<mapsto> Unfitted (Clone ()))\<rparr>) \<and>
   attr_CLASSIFIER (node_attrs (graph (raw_mlb_AB\<lparr>estimators :=
     (estimators raw_mlb_AB)(NStr ''A'' \<mapsto> Unfitted (Clone ()))\<rparr>)) (NStr ''A'')) = None \<and>
   estimators (raw_mlb_AB\<lparr>estimators :=
     (estimators raw_mlb_AB)(NStr ''A'' \<mapsto> Unfitted (Clone ()))\<rparr>) (NStr ''A'') =
     Some (Unfitted (Clone ()))"
proof -
  have a: "feature_extraction raw_mlb_AB = ''raw''"
    by (simp add: raw_mlb_AB_def init_def)
  have b: "training_set (ref_env lookup_fit ()) raw_mlb_AB (RawX [(), ()])
     (RowLabels [[0, 1, 0, 0], [0, 1, 0, 0]]) (NStr ''A'') = Inr (RawX [], Indicator [])"
    by code_simp
  have c: "\<not> (NStr ''A'' \<in> set (nodes (graph raw_mlb_AB)) \<and>
     successors (graph raw_mlb_AB) (NStr ''A'') = [] \<and> algorithm raw_mlb_AB = ''lcpn'')"
    by code_simp
  have d: "(if n_unique_targets (Indicator []) = 1 then Inr (DummyClassifier (targets_first (Indicator [])))
          else base_estimator_for (ref_env lookup_fit ()) raw_mlb_AB (NStr ''A'')) = Inr (Clone ())"
    by (simp add: base_estimator_for_def raw_mlb_AB_def init_def ref_env_def)
  have e: "attr_CLASSIFIER (node_attrs (graph (raw_mlb_AB\<lparr>estimators :=
     (estimators raw_mlb_AB)(NStr ''A'' \<mapsto> Unfitted (Clone ()))\<rparr>)) (NStr ''A'')) = None"
    by (simp add: raw_mlb_AB_def init_def DiGraph_def)
  show ?thesis
    using a b e raw_empty_training_set_keeps_unfitted_estimator[OF a b c d] by simp
qed



text \<open>
  C5, as amended. Zero rows: in preprocessed mode the trainer returns with \<^verbatim>\<open>self\<close>
  unchanged, so no classifier and no error; in raw mode, once an estimator for the node
  has been resolved, it stores no classifier at the node (only the unfitted estimator in
  \<^verbatim>\<open>estimators_\<close>). One distinct target over a training set with rows: the constant
  fallback for that target is fitted and stored at the node and in \<^verbatim>\<open>estimators_\<close>.
  A walk whose prediction is a node without classifier ends at that node, which is the
  last entry of its path.
\<close>

theorem train_on_fallbacks:
  "(feature_extraction self = ''preprocessed'' \<longrightarrow>
      train_on env self node_id (CsrX []) y' = Inr self) \<and>
   (feature_extraction self = ''raw'' \<and>
    (if n_unique_targets y' = 1 then Inr (DummyClassifier (targets_first y'))
     else base_estimator_for env self node_id) = Inr clf \<longrightarrow>
      train_on env self node_id (RawX []) y' =
        Inr (self\<lparr>estimators := (estimators self)(node_id \<mapsto> Unfitted clf)\<rparr>)) \<and>
   (n_unique_targets y' = 1 \<and> node_id \<in> set (nodes (graph self)) \<and>
    (feature_extraction self = ''preprocessed'' \<and> X' = CsrX (r # rs) \<or>
     feature_extraction self = ''raw'' \<and> X' = RawX (v # vs)) \<and>
    fit_est env (DummyClassifier (targets_first y')) X' y' = Inr c \<longrightarrow>
      train_on env self node_id X' y' =
        Inr ((set_CLASSIFIER self node_id (Fitted (DummyClassifier (targets_first y')) c))
               \<lparr>estimators :=
                  (estimators self)(node_id \<mapsto> Fitted (DummyClassifier (targets_first y')) c)\<rparr>) \<and>
      (\<forall>ls. y' = Labels ls \<longrightarrow> targets_first y' = YNode (hd ls) \<and> set ls = {hd ls})) \<and>
   (mlb_opt self = None \<and> node_id \<in> set (nodes (graph self)) \<and>
    attr_CLASSIFIER (node_attrs (graph self) node_id) = None \<and>
    compute_scores self pc x = Inr (probs, argmax, score) \<and>
    scatter self probs argmax 0 (clf_classes pc)
      (cp, (if length (clf_classes pc) = 1 then Some (clf_classes pc ! 0) else pr), []) =
      Inr (cp', Some node_id, preds) \<and>
    should_early_terminate self (last path) node_id score = Inr False \<longrightarrow>
      walk_loop (Suc fuel) self x (Fitted sp pc) path cp pr =
        Some (Inr ((path @ [node_id], cp'), self)))"
proof (intro conjI impI)
  assume "feature_extraction self = ''preprocessed''"
  then show "train_on env self node_id (CsrX []) y' = Inr self"
    by (simp add: train_on_def zero_rows_def)
next
  assume "feature_extraction self = ''raw'' \<and>
    (if n_unique_targets y' = 1 then Inr (DummyClassifier (targets_first y'))
     else base_estimator_for env self node_id) = Inr clf"
  then show "train_on env self node_id (RawX []) y' =
        Inr (self\<lparr>estimators := (estimators self)(node_id \<mapsto> Unfitted clf)\<rparr>)"
    by (simp add: train_on_def zero_rows_def)
next
  assume a: "n_unique_targets y' = 1 \<and> node_id \<in> set (nodes (graph self)) \<and>
    (feature_extraction self = ''preprocessed'' \<and> X' = CsrX (r # rs) \<or>
     feature_extraction self = ''raw'' \<and> X' = RawX (v # vs)) \<and>
    fit_est env (DummyClassifier (targets_first y')) X' y' = Inr c"
  then show "train_on env self node_id X' y' =
        Inr ((set_CLASSIFIER self node_id (Fitted (DummyClassifier (targets_first y')) c))
               \<lparr>estimators :=
                  (estimators self)(node_id \<mapsto> Fitted (DummyClassifier (targets_first y')) c)\<rparr>)"
    by (auto simp: train_on_def zero_rows_def fit_and_store_def nodes_getitem_def)
  show "\<forall>ls. y' = Labels ls \<longrightarrow> targets_first y' = YNode (hd ls) \<and> set ls = {hd ls}"
  proof (intro allI impI)
    fix ls
    assume "y' = Labels ls"
    with a have "length (remdups ls) = 1" by simp
    then have "set ls = {hd ls}" by (rule single_target_labels)
    with \<open>y' = Labels ls\<close> show "targets_first y' = YNode (hd ls) \<and> set ls = {hd ls}"
      by simp
  qed
next
  assume "mlb_opt self = None \<and> node_id \<in> set (nodes (graph self)) \<and>
    attr_CLASSIFIER (node_attrs (graph self) node_id) = None \<and>
    compute_scores self pc x = Inr (probs, argmax, score) \<and>
    scatter self probs argmax 0 (clf_classes pc)
      (cp, (if length (clf_classes pc) = 1 then Some (clf_classes pc ! 0) else pr), []) =
      Inr (cp', Some node_id, preds) \<and>
    should_early_terminate self (last path) node_id score = Inr False"
  then show "walk_loop (Suc fuel) self x (Fitted sp pc) path cp pr =
        Some (Inr ((path @ [node_id], cp'), self))"
    by (simp add: nodes_getitem_def)
qed


theorem train_on_fallbacks_witness:
  "train_on (ref_env lookup_fit ()) (walker_AB ''mlnp'' SCNone) (NStr ''A'') (CsrX []) (Labels []) =
     Inr (walker_AB ''mlnp'' SCNone) \<and>
   n_unique_targets (Labels [NStr ''A1'', NStr ''A1'']) = 1 \<and>
   fit_est (ref_env lookup_fit ()) (DummyClassifier (YNode (NStr ''A1''))) (CsrX [[1, 0], [1, 1]])
     (Labels [NStr ''A1'', NStr ''A1'']) = Inr (fixed_clf [NStr ''A1''] [1]) \<and>
   train_on (ref_env lookup_fit ()) (walker_AB ''mlnp'' SCNone) (NStr ''A'')
     (CsrX [[1, 0], [1, 1]]) (Labels [NStr ''A1'', NStr ''A1'']) =
     Inr ((set_CLASSIFIER (walker_AB ''mlnp'' SCNone) (NStr ''A'')
             (Fitted (DummyClassifier (YNode (NStr ''A1''))) (fixed_clf [NStr ''A1''] [1])))
            \<lparr>estimators := (estimators (walker_AB ''mlnp'' SCNone))
               (NStr ''A'' \<mapsto>
                  Fitted (DummyClassifier (YNode (NStr ''A1''))) (fixed_clf [NStr ''A1''] [1]))\<rparr>)"
proof -
  have f: "fit_est (ref_env lookup_fit ()) (DummyClassifier (YNode (NStr ''A1'')))
     (CsrX [[1, 0], [1, 1]]) (Labels [NStr ''A1'', NStr ''A1'']) = Inr (fixed_clf [NStr ''A1''] [1])"
    by (simp add: ref_env_def fixed_clf_def)
  from train_on_fallbacks
    [where self = "walker_AB ''mlnp'' SCNone" and env = "ref_env lookup_fit ()"
       and node_id = "NStr ''A''" and y' = "Labels []"]
  have z: "train_on (ref_env lookup_fit ()) (walker_AB ''mlnp'' SCNone) (NStr ''A'') (CsrX [])
     (Labels []) = Inr (walker_AB ''mlnp'' SCNone)"
    by (simp add: walker_AB_fields)
  from train_on_fallbacks
    [where self = "walker_AB ''mlnp'' SCNone" and env = "ref_env lookup_fit ()"
       and node_id = "NStr ''A''" and y' = "Labels [NStr ''A1'', NStr ''A1'']"
       and X' = "CsrX [[1, 0], [1, 1]]" and r = "[1, 0]" and rs = "[[1, 1]]"
       and c = "fixed_clf [NStr ''A1''] [1]"]
  have o: "train_on (ref_env lookup_fit ()) (walker_AB ''mlnp'' SCNone) (NStr ''A'')
     (CsrX [[1, 0], [1, 1]]) (Labels [NStr ''A1'', NStr ''A1'']) =
     Inr ((set_CLASSIFIER (walker_AB ''mlnp'' SCNone) (NStr ''A'')
             (Fitted (DummyClassifier (YNode (NStr ''A1''))) (fixed_clf [NStr ''A1''] [1])))
            \<lparr>estimators := (estimators (walker_AB ''mlnp'' SCNone))
               (NStr ''A'' \<mapsto>
                  Fitted (DummyClassifier (YNode (NStr ''A1''))) (fixed_clf [NStr ''A1''] [1]))\<rparr>)"
    by (simp add: walker_AB_fields walker_AB_nodes f)
  from z o f show ?thesis by simp
qed

text \<open>
  The claim as first stated has the prediction paths end at the parent of a node without
  training rows. After a fit on rows labelled A and B only, the node A has an all-zero
  cache and no classifier, and the walk for the first row ends at A, not at its parent.
\<close>

theorem starved_node_ends_path_counterexample:
  "cache_after_fit starved_fit (NStr ''A'') = Some (Some (CsrX [[0, 0], [0, 0]])) \<and>
   classes_after_fit starved_fit (NStr ''A'') = Some None \<and>
   classes_after_fit starved_fit (NStr ''root'') = Some (Some [NStr ''A'', NStr ''B'']) \<and>
   walk_after_fit 3 starved_fit (RowEx [1, 0]) =
     Some (Some ([NStr ''root'', NStr ''A''], [1, 0, 0, 0])) \<and>
   last [NStr ''root'', NStr ''A''] \<noteq> NStr ''root''"
  by code_simp


section \<open>Scatter and fan-out\<close>

lemma vec_add_nth:
  "vec_add u v = Inr w \<Longrightarrow> length w = length u \<and> (\<forall>k<length u. w ! k = u ! k + v ! k)"
  by (auto simp: vec_add_def split: if_splits)

lemma fan_out_result:
  "fan_out fuel self x ps path cp = Some (Inr ((path', cp'), s')) \<Longrightarrow>
   path' = path @ concat (map (\<lambda>p. p # sub_path fuel self x p) ps) \<and>
   length cp' = length cp \<and>
   (\<forall>k<length cp. cp' ! k = cp ! k + sum_list (map (\<lambda>p. sub_proba fuel self x p k) ps))"
proof (induction ps arbitrary: path cp)
  case Nil
  then show ?case by simp
next
  case (Cons p ps)
  from Cons.prems obtain r s1 where rp: "recursive_predict fuel self x p = Some (Inr (r, s1))"
    by (auto split: option.splits sum.splits)
  with walker_frame(1) have s1: "s1 = self" by blast
  show ?case
  proof (cases r)
    case None
    with Cons.prems rp s1
    have "fan_out fuel self x ps (path @ [p]) cp = Some (Inr ((path', cp'), s'))"
      by simp
    from Cons.IH[OF this] rp None show ?thesis
      by (simp add: sub_path_def sub_proba_def)
  next
    case (Some pw)
    obtain pp pv where pw: "pw = (pp, pv)" by (cases pw)
    with Cons.prems rp Some s1 obtain cp1 where va: "vec_add cp pv = Inr cp1"
      and fo: "fan_out fuel self x ps (path @ [p] @ pp) cp1 = Some (Inr ((path', cp'), s'))"
      by (auto split: sum.splits)
    from vec_add_nth[OF va] have l: "length cp1 = length cp"
      and n: "\<forall>k<length cp. cp1 ! k = cp ! k + pv ! k" by auto
    from Cons.IH[OF fo] rp Some pw l n show ?thesis
      by (simp add: sub_path_def sub_proba_def)
  qed
qed

lemma array_index_less: "array_index n c = Inr k \<Longrightarrow> k < n"
  by (cases c) (auto split: if_splits)

lemma scatter_mlb:
  assumes "mlb_opt self = Some m"
  shows "scatter self probs argmax i cs (cp, pr, preds) = Inr (cp', pr', preds') \<Longrightarrow>
    preds' = preds @ fan_out_targets m (mlb_prediction_threshold self) (first_row probs) i cs \<and>
    pr' = pr \<and> length cp' = length cp"
proof (induction cs arbitrary: i cp preds)
  case Nil
  then show ?case by simp
next
  case (Cons c cs)
  from Cons.prems assms obtain v where v: "index2 probs i = Inr v"
    by (auto split: sum.splits)
  then obtain r rs where probs: "probs = Arr2 (r # rs)" and i: "i < length r" and vr: "v = r ! i"
    by (cases probs) (auto split: list.splits if_splits)
  from Cons.prems assms v obtain k where k: "array_index (length cp) c = Inr k"
    by (auto split: sum.splits)
  show ?case
  proof (cases "v > mlb_prediction_threshold self")
    case True
    with Cons.prems assms v k obtain k' where k': "array_index (length (mlb_classes m)) c = Inr k'"
      and rest: "scatter self probs argmax (Suc i) cs (cp[k := v], pr, preds @ [mlb_classes m ! k'])
           = Inr (cp', pr', preds')"
      by (auto split: sum.splits)
    from Cons.IH[OF rest] True probs vr k' show ?thesis
      by (simp add: mlb_class_def)
  next
    case False
    with Cons.prems assms v k have
      rest: "scatter self probs argmax (Suc i) cs (cp[k := v], pr, preds) = Inr (cp', pr', preds')"
      by (auto split: sum.splits)
    from Cons.IH[OF rest] False probs vr show ?thesis
      by simp
  qed
qed


lemma list_index_nth: "list_index xs a = Inr k \<Longrightarrow> k < length xs \<and> xs ! k = a"
  by (induction xs arbitrary: k) (auto split: if_splits sum.splits)

lemma scatter_single:
  assumes "mlb_opt self = None"
  shows "scatter self probs argmax i cs (cp, pr, preds) = Inr (cp', pr', preds') \<Longrightarrow> distinct cs \<Longrightarrow>
     length cp' = length cp \<and> preds' = preds \<and>
     (\<forall>j<length cs. \<exists>k v. list_index (classes self) (cs ! j) = Inr k \<and>
        local_score probs (i + j) = Inr v \<and> k < length cp \<and> cp' ! k = v) \<and>
     (\<forall>k<length cp. (\<forall>j<length cs. list_index (classes self) (cs ! j) \<noteq> Inr k) \<longrightarrow> cp' ! k = cp ! k)"
proof (induction cs arbitrary: i cp pr)
  case Nil
  then show ?case by simp
next
  case (Cons c cs)
  from Cons.prems(1) assms obtain k0 where k0: "list_index (classes self) c = Inr k0"
    by (auto split: sum.splits)
  from Cons.prems(1) assms k0 obtain v0 where v0: "local_score probs i = Inr v0"
    by (auto split: sum.splits)
  from Cons.prems(1) assms k0 v0 have lt: "k0 < length cp"
    by (auto split: if_splits)
  from Cons.prems(1) assms k0 v0 lt have
    rest: "scatter self probs argmax (Suc i) cs
             (cp[k0 := v0], (if i = argmax then Some c else pr), preds) = Inr (cp', pr', preds')"
    by simp
  from Cons.prems(2) have d: "distinct cs" and nc: "c \<notin> set cs" by auto
  from Cons.IH[OF rest d] have len: "length cp' = length cp" and pp: "preds' = preds"
    and hit: "\<forall>j<length cs. \<exists>k v. list_index (classes self) (cs ! j) = Inr k \<and>
        local_score probs (Suc i + j) = Inr v \<and> k < length cp \<and> cp' ! k = v"
    and miss: "\<forall>k<length cp. (\<forall>j<length cs. list_index (classes self) (cs ! j) \<noteq> Inr k) \<longrightarrow>
        cp' ! k = (cp[k0 := v0]) ! k"
    by auto
  have other: "\<forall>j<length cs. list_index (classes self) (cs ! j) \<noteq> Inr k0"
  proof (intro allI impI notI)
    fix j assume j: "j < length cs" and e: "list_index (classes self) (cs ! j) = Inr k0"
    from list_index_nth[OF e] list_index_nth[OF k0] have "cs ! j = c" by simp
    with j nc show False by (metis nth_mem)
  qed
  with miss lt have at0: "cp' ! k0 = v0" by simp
  have H: "\<forall>j<length (c # cs). \<exists>k v. list_index (classes self) ((c # cs) ! j) = Inr k \<and>
        local_score probs (i + j) = Inr v \<and> k < length cp \<and> cp' ! k = v"
  proof (intro allI impI)
    fix j assume "j < length (c # cs)"
    show "\<exists>k v. list_index (classes self) ((c # cs) ! j) = Inr k \<and>
        local_score probs (i + j) = Inr v \<and> k < length cp \<and> cp' ! k = v"
    proof (cases j)
      case 0
      with k0 v0 lt at0 show ?thesis by simp
    next
      case (Suc j')
      with \<open>j < length (c # cs)\<close> have "j' < length cs" by simp
      with hit Suc show ?thesis by simp
    qed
  qed
  have M: "\<forall>k<length cp. (\<forall>j<length (c # cs). list_index (classes self) ((c # cs) ! j) \<noteq> Inr k) \<longrightarrow>
        cp' ! k = cp ! k"
  proof (intro allI impI)
    fix k assume k: "k < length cp"
      and no: "\<forall>j<length (c # cs). list_index (classes self) ((c # cs) ! j) \<noteq> Inr k"
    from no have "list_index (classes self) c \<noteq> Inr k" by auto
    with k0 have ne: "k \<noteq> k0" by auto
    from no have "\<forall>j<length cs. list_index (classes self) (cs ! j) \<noteq> Inr k" by auto
    with miss k have "cp' ! k = (cp[k0 := v0]) ! k" by simp
    with ne show "cp' ! k = cp ! k" by simp
  qed
  from len pp H M show ?case by blast
qed


lemma scatter_multi:
  assumes "mlb_opt self = Some m"
  shows "scatter self probs argmax i cs (cp, pr, preds) = Inr (cp', pr', preds') \<Longrightarrow>
     distinct (map (array_index (length cp)) cs) \<Longrightarrow>
     (\<forall>j<length cs. \<exists>k v. array_index (length cp) (cs ! j) = Inr k \<and>
        index2 probs (i + j) = Inr v \<and> k < length cp \<and> cp' ! k = v) \<and>
     (\<forall>k<length cp. (\<forall>j<length cs. array_index (length cp) (cs ! j) \<noteq> Inr k) \<longrightarrow> cp' ! k = cp ! k)"
proof (induction cs arbitrary: i cp preds)
  case Nil
  then show ?case by simp
next
  case (Cons c cs)
  from Cons.prems(1) assms obtain v0 where v0: "index2 probs i = Inr v0"
    by (auto split: sum.splits)
  from Cons.prems(1) assms v0 obtain k0 where k0: "array_index (length cp) c = Inr k0"
    by (auto split: sum.splits)
  then have lt: "k0 < length cp" by (rule array_index_less)
  from Cons.prems(1) assms k0 v0 obtain preds1 where
    rest: "scatter self probs argmax (Suc i) cs (cp[k0 := v0], pr, preds1) = Inr (cp', pr', preds')"
    by (auto split: sum.splits if_splits)
  from Cons.prems(2) have d: "distinct (map (array_index (length (cp[k0 := v0]))) cs)"
    and nc: "array_index (length cp) c \<notin> set (map (array_index (length cp)) cs)" by auto
  from Cons.IH[OF rest d] have
    hit: "\<forall>j<length cs. \<exists>k v. array_index (length cp) (cs ! j) = Inr k \<and>
        index2 probs (Suc i + j) = Inr v \<and> k < length cp \<and> cp' ! k = v"
    and miss: "\<forall>k<length cp. (\<forall>j<length cs. array_index (length cp) (cs ! j) \<noteq> Inr k) \<longrightarrow>
        cp' ! k = (cp[k0 := v0]) ! k"
    by auto
  have other: "\<forall>j<length cs. array_index (length cp) (cs ! j) \<noteq> Inr k0"
  proof (intro allI impI notI)
    fix j assume j: "j < length cs" and e: "array_index (length cp) (cs ! j) = Inr k0"
    from j have "array_index (length cp) (cs ! j) \<in> set (map (array_index (length cp)) cs)"
      by simp
    with e k0 nc show False by simp
  qed
  with miss lt have at0: "cp' ! k0 = v0" by simp
  have H: "\<forall>j<length (c # cs). \<exists>k v. array_index (length cp) ((c # cs) ! j) = Inr k \<and>
        index2 probs (i + j) = Inr v \<and> k < length cp \<and> cp' ! k = v"
  proof (intro allI impI)
    fix j assume "j < length (c # cs)"
    show "\<exists>k v. array_index (length cp) ((c # cs) ! j) = Inr k \<and>
        index2 probs (i + j) = Inr v \<and> k < length cp \<and> cp' ! k = v"
    proof (cases j)
      case 0
      with k0 v0 lt at0 show ?thesis by simp
    next
      case (Suc j')
      with \<open>j < length (c # cs)\<close> have "j' < length cs" by simp
      with hit Suc show ?thesis by simp
    qed
  qed
  have M: "\<forall>k<length cp. (\<forall>j<length (c # cs). array_index (length cp) ((c # cs) ! j) \<noteq> Inr k) \<longrightarrow>
        cp' ! k = cp ! k"
  proof (intro allI impI)
    fix k assume k: "k < length cp"
      and no: "\<forall>j<length (c # cs). array_index (length cp) ((c # cs) ! j) \<noteq> Inr k"
    from no have "array_index (length cp) c \<noteq> Inr k" by auto
    with k0 have ne: "k \<noteq> k0" by auto
    from no have "\<forall>j<length cs. array_index (length cp) (cs ! j) \<noteq> Inr k" by auto
    with miss k have "cp' ! k = (cp[k0 := v0]) ! k" by simp
    with ne show "cp' ! k = cp ! k" by simp
  qed
  from H M show ?case by blast
qed


text \<open>
  C4. In single-label mode the score of every local class is stored at the position of
  the class in the flattened class list, in multi-label mode at the position the local
  class names as an index; the other positions keep their values. Across the sub-walks
  of a fan-out the vectors add up: every entry of the result is the entry of the current
  vector plus the entries the sub-walks returned.
\<close>

theorem scatter_positions_and_accumulation:
  "(mlb_opt self = None \<and> distinct cs \<and>
    scatter self probs argmax i cs (cp, pr, preds) = Inr (cp', pr', preds') \<longrightarrow>
      length cp' = length cp \<and>
      (\<forall>j<length cs. \<exists>k v. list_index (classes self) (cs ! j) = Inr k \<and>
         local_score probs (i + j) = Inr v \<and> k < length cp \<and> cp' ! k = v) \<and>
      (\<forall>k<length cp. (\<forall>j<length cs. list_index (classes self) (cs ! j) \<noteq> Inr k) \<longrightarrow>
         cp' ! k = cp ! k)) \<and>
   (mlb_opt self = Some m \<and> distinct (map (array_index (length cp)) cs) \<and>
    scatter self probs argmax i cs (cp, pr, preds) = Inr (cp', pr', preds') \<longrightarrow>
      length cp' = length cp \<and>
      (\<forall>j<length cs. \<exists>k v. array_index (length cp) (cs ! j) = Inr k \<and>
         index2 probs (i + j) = Inr v \<and> k < length cp \<and> cp' ! k = v) \<and>
      (\<forall>k<length cp. (\<forall>j<length cs. array_index (length cp) (cs ! j) \<noteq> Inr k) \<longrightarrow>
         cp' ! k = cp ! k)) \<and>
   (fan_out fuel self x ps path cq = Some (Inr ((path', cq'), s')) \<longrightarrow>
      length cq' = length cq \<and>
      (\<forall>k<length cq. cq' ! k = cq ! k + sum_list (map (\<lambda>p. sub_proba fuel self x p k) ps)))"
proof (intro conjI impI)
  assume a: "mlb_opt self = None \<and> distinct cs \<and>
    scatter self probs argmax i cs (cp, pr, preds) = Inr (cp', pr', preds')"
  then have n: "mlb_opt self = None" and d: "distinct cs"
    and s: "scatter self probs argmax i cs (cp, pr, preds) = Inr (cp', pr', preds')" by auto
  from scatter_single[OF n s d]
  show "length cp' = length cp"
    and "\<forall>j<length cs. \<exists>k v. list_index (classes self) (cs ! j) = Inr k \<and>
         local_score probs (i + j) = Inr v \<and> k < length cp \<and> cp' ! k = v"
    and "\<forall>k<length cp. (\<forall>j<length cs. list_index (classes self) (cs ! j) \<noteq> Inr k) \<longrightarrow>
         cp' ! k = cp ! k"
    by blast+
next
  assume a: "mlb_opt self = Some m \<and> distinct (map (array_index (length cp)) cs) \<and>
    scatter self probs argmax i cs (cp, pr, preds) = Inr (cp', pr', preds')"
  then have n: "mlb_opt self = Some m" and d: "distinct (map (array_index (length cp)) cs)"
    and s: "scatter self probs argmax i cs (cp, pr, preds) = Inr (cp', pr', preds')" by auto
  from scatter_mlb[OF n s] show "length cp' = length cp" by simp
  from scatter_multi[OF n s d]
  show "\<forall>j<length cs. \<exists>k v. array_index (length cp) (cs ! j) = Inr k \<and>
         index2 probs (i + j) = Inr v \<and> k < length cp \<and> cp' ! k = v"
    and "\<forall>k<length cp. (\<forall>j<length cs. array_index (length cp) (cs ! j) \<noteq> Inr k) \<longrightarrow>
         cp' ! k = cp ! k"
    by blast+
next
  assume f: "fan_out fuel self x ps path cq = Some (Inr ((path', cq'), s'))"
  from fan_out_result[OF f]
  show "length cq' = length cq"
    and "\<forall>k<length cq. cq' ! k = cq ! k + sum_list (map (\<lambda>p. sub_proba fuel self x p k) ps)"
    by blast+
qed


theorem scatter_positions_and_accumulation_witness:
  "scatter (walker_AB ''mlnp'' SCNone) (Arr1 [0.9, 0.1]) 0 0 [NStr ''A'', NStr ''B'']
     ([0, 0, 0, 0], None, []) = Inr ([0.9, 0.1, 0, 0], Some (NStr ''A''), []) \<and>
   scatter dag_walker (Arr2 [[0.6, 0.5]]) 0 0 [NInt 0, NInt 1] ([0, 0, 0], None, []) =
     Inr ([0.6, 0.5, 0], None, [NStr ''A'', NStr ''B'']) \<and>
   sub_proba (Suc (Suc 0)) dag_walker (RawEx ()) (NStr ''A'') 2 = 0.7 \<and>
   sub_proba (Suc (Suc 0)) dag_walker (RawEx ()) (NStr ''B'') 2 = 0.2 \<and>
   fan_out (Suc (Suc 0)) dag_walker (RawEx ()) [NStr ''A'', NStr ''B''] [NStr ''root'']
     [0.6, 0.5, 0] =
     Some (Inr (([NStr ''root'', NStr ''A'', NStr ''A'', NStr ''C'', NStr ''B'', NStr ''B''],
                 [0.6, 0.5, 0.9]), dag_walker))"
proof -
  have a: "scatter (walker_AB ''mlnp'' SCNone) (Arr1 [0.9, 0.1]) 0 0 [NStr ''A'', NStr ''B'']
     ([0, 0, 0, 0], None, []) = Inr ([0.9, 0.1, 0, 0], Some (NStr ''A''), [])"
    by (simp add: walker_AB_simps)
  have b: "scatter dag_walker (Arr2 [[0.6, 0.5]]) 0 0 [NInt 0, NInt 1] ([0, 0, 0], None, []) =
     Inr ([0.6, 0.5, 0], None, [NStr ''A'', NStr ''B''])"
    by (simp add: dag_walker_simps)
  have c: "fan_out (Suc (Suc 0)) dag_walker (RawEx ()) [NStr ''A'', NStr ''B''] [NStr ''root'']
     [0.6, 0.5, 0] =
     Some (Inr (([NStr ''root'', NStr ''A'', NStr ''A'', NStr ''C'', NStr ''B'', NStr ''B''],
                 [0.6, 0.5, 0.9]), dag_walker))"
    by (simp add: dag_walker_simps)
  have d: "sub_proba (Suc (Suc 0)) dag_walker (RawEx ()) (NStr ''A'') 2 = 0.7"
    "sub_proba (Suc (Suc 0)) dag_walker (RawEx ()) (NStr ''B'') 2 = 0.2"
    by (simp_all add: sub_proba_def dag_walker_simps)
  from scatter_positions_and_accumulation
    [of "walker_AB ''mlnp'' SCNone" "[NStr ''A'', NStr ''B'']" "Arr1 [0.9, 0.1]" 0 0
        "[0, 0, 0, 0]" None "[]" "[0.9, 0.1, 0, 0]" "Some (NStr ''A'')" "[]" "\<lparr>mlb_classes = []\<rparr>"
        "Suc (Suc 0)" "RawEx ()" "[]" "[]" "[]" "[]" "[]" "walker_AB ''mlnp'' SCNone"]
    scatter_positions_and_accumulation
    [of dag_walker "[NInt 0, NInt 1]" "Arr2 [[0.6, 0.5]]" 0 0
        "[0, 0, 0]" None "[]" "[0.6, 0.5, 0]" None "[NStr ''A'', NStr ''B'']"
        "\<lparr>mlb_classes = [NStr ''A'', NStr ''B'', NStr ''C'']\<rparr>"
        "Suc (Suc 0)" "RawEx ()" "[NStr ''A'', NStr ''B'']" "[NStr ''root'']" "[0.6, 0.5, 0]"
        "[NStr ''root'', NStr ''A'', NStr ''A'', NStr ''C'', NStr ''B'', NStr ''B'']"
        "[0.6, 0.5, 0.9]" dag_walker]
    a b c d
  show ?thesis by simp
qed

text \<open>
  C9. One step of the walk in multi-label mode: the local classes whose score is above
  \<^verbatim>\<open>mlb_prediction_threshold\<close> are the fan-out targets, the path is extended by each
  target followed by the path its sub-walk returned, and the vector is the scattered one
  plus the vectors of the sub-walks.
\<close>

theorem multi_label_fan_out:
  assumes "mlb_opt self = Some m"
    and "compute_scores self c x = Inr (probs, argmax, score)"
    and "walk_loop (Suc fuel) self x (Fitted sp c) path cp pr = Some (Inr ((path', cp''), s'))"
  shows "\<exists>cp' pr'.
     scatter self probs argmax 0 (clf_classes c)
       (cp, (if length (clf_classes c) = 1 then Some (clf_classes c ! 0) else pr), []) =
       Inr (cp', pr',
            fan_out_targets m (mlb_prediction_threshold self) (first_row probs) 0 (clf_classes c)) \<and>
     path' = path @ concat (map (\<lambda>p. p # sub_path fuel self x p)
               (fan_out_targets m (mlb_prediction_threshold self) (first_row probs) 0
                  (clf_classes c))) \<and>
     length cp'' = length cp \<and>
     (\<forall>k<length cp. cp'' ! k = cp' ! k +
        sum_list (map (\<lambda>p. sub_proba fuel self x p k)
          (fan_out_targets m (mlb_prediction_threshold self) (first_row probs) 0
             (clf_classes c))))"
proof -
  from assms obtain cp' pr' preds where
    sc: "scatter self probs argmax 0 (clf_classes c)
       (cp, (if length (clf_classes c) = 1 then Some (clf_classes c ! 0) else pr), []) =
       Inr (cp', pr', preds)"
    and fo: "fan_out fuel self x preds path cp' = Some (Inr ((path', cp''), s'))"
    by (auto split: sum.splits)
  from scatter_mlb[OF assms(1) sc] have
    preds: "preds = fan_out_targets m (mlb_prediction_threshold self) (first_row probs) 0 (clf_classes c)"
    and len: "length cp' = length cp" by auto
  from fan_out_result[OF fo] len preds sc show ?thesis by auto
qed

theorem multi_label_fan_out_witness:
  "fan_out_targets \<lparr>mlb_classes = [NStr ''A'', NStr ''B'', NStr ''A1'', NStr ''A2'']\<rparr> 0.3
     [0.4, 0.1] 0 [NInt 0, NInt 1] = [NStr ''A''] \<and>
   sub_path (Suc 0) mlb_walker_AB (RawEx ()) (NStr ''A'') = [NStr ''A''] \<and>
   walk_loop (Suc (Suc 0)) mlb_walker_AB (RawEx ())
     (Fitted (Clone ()) (scored_clf [NInt 0, NInt 1] [0.4, 0.1])) [NStr ''root''] [0, 0, 0, 0] None =
     Some (Inr (([NStr ''root'', NStr ''A'', NStr ''A''], [0.4, 0.1, 0.2, 0.1]), mlb_walker_AB))"
proof -
  have a: "mlb_opt mlb_walker_AB = Some \<lparr>mlb_classes = [NStr ''A'', NStr ''B'', NStr ''A1'', NStr ''A2'']\<rparr>"
    by (rule mlb_walker_AB_fields)
  have b: "compute_scores mlb_walker_AB (scored_clf [NInt 0, NInt 1] [0.4, 0.1]) (RawEx ()) =
     Inr (Arr2 [[0.4, 0.1]], 0, Scalar 0.4)"
    by (simp add: mlb_walker_AB_simps)
  have c: "walk_loop (Suc (Suc 0)) mlb_walker_AB (RawEx ())
     (Fitted (Clone ()) (scored_clf [NInt 0, NInt 1] [0.4, 0.1])) [NStr ''root''] [0, 0, 0, 0] None =
     Some (Inr (([NStr ''root'', NStr ''A'', NStr ''A''], [0.4, 0.1, 0.2, 0.1]), mlb_walker_AB))"
    by (simp add: mlb_walker_AB_simps)
  have d: "sub_path (Suc 0) mlb_walker_AB (RawEx ()) (NStr ''A'') = [NStr ''A'']"
    by (simp add: sub_path_def mlb_walker_AB_simps)
  from multi_label_fan_out[OF a b c] c d show ?thesis
    by (simp add: mlb_class_def)
qed

section \<open>The feature builder: caches and returned values\<close>

lemma set_attrs_frame [simp]:
  "nodes (graph (set_attrs self n f)) = nodes (graph self)"
  "successors (graph (set_attrs self n f)) = successors (graph self)"
  "feature_extraction (set_attrs self n f) = feature_extraction self"
  "estimators (set_attrs self n f) = estimators self"
  "node_attrs (graph (set_attrs self n f)) m =
     (if m = n then f (node_attrs (graph self) n) else node_attrs (graph self) m)"
  by (simp_all add: set_attrs_def)

lemma cache_set [simp]:
  "cache (set_X self n c) m = (if m = n then Some c else cache self m)"
  "cache (set_METAFEATURES self n mf) m = cache self m"
  "cache (set_CLASSIFIER self n clf) m = cache self m"
  by (simp_all add: cache_def set_X_def set_METAFEATURES_def set_CLASSIFIER_def)

lemma set_frame [simp]:
  "nodes (graph (set_X self n c)) = nodes (graph self)"
  "successors (graph (set_X self n c)) = successors (graph self)"
  "feature_extraction (set_X self n c) = feature_extraction self"
  "nodes (graph (set_METAFEATURES self n mf)) = nodes (graph self)"
  "successors (graph (set_METAFEATURES self n mf)) = successors (graph self)"
  "feature_extraction (set_METAFEATURES self n mf) = feature_extraction self"
  by (simp_all add: set_X_def set_METAFEATURES_def)

text \<open>The three ways a visit of the builder returns.\<close>

lemma rbf_cases:
  assumes run: "recursive_build_features (Suc fuel) env X y node_id (self, pr) =
                  Some (Inr (ret, (self', pr')))"
  shows "node_id \<in> set (nodes (graph self)) \<and>
    ((cache self node_id = Some ret \<and> self' = self \<and> pr' = pr) \<or>
     (cache self node_id = None \<and> successors (graph self) node_id = [] \<and>
      own_rows env self X y node_id = Inr ret \<and> self' = set_X self node_id ret \<and>
      pr' = pr @ [node_id]) \<or>
     (cache self node_id = None \<and> successors (graph self) node_id \<noteq> [] \<and>
      (\<exists>c0 s1 c m. empty_features self X = Inr c0 \<and>
         build_children fuel env X y node_id (successors (graph self) node_id)
           (set_X self node_id c0, pr @ [node_id]) = Some (Inr (s1, pr')) \<and>
         cache s1 node_id = Some c \<and> build_metafeatures env s1 c y = Inr m \<and>
         self' = set_METAFEATURES s1 node_id m \<and>
         (issubdtype node_id y \<longrightarrow>
            (\<exists>own. own_rows env s1 X y node_id = Inr own \<and> features_add c own = Inr ret)) \<and>
         (\<not> issubdtype node_id y \<longrightarrow> ret = c))))"
proof -
  from run have inn: "node_id \<in> set (nodes (graph self))"
    by (auto simp: nodes_getitem_def split: if_splits)
  show ?thesis
  proof (cases "cache self node_id")
    case (Some c)
    with run inn show ?thesis by (simp add: nodes_getitem_def cache_def)
  next
    case None
    show ?thesis
    proof (cases "successors (graph self) node_id = []")
      case True
      with run inn None show ?thesis
        by (auto simp: nodes_getitem_def cache_def own_rows_def split: sum.splits)
    next
      case False
      from run inn None False obtain c0 where c0: "empty_features self X = Inr c0"
        by (auto simp: nodes_getitem_def cache_def split: sum.splits)
      from run inn None False c0 obtain s1 p1 where
        bc: "build_children fuel env X y node_id (successors (graph self) node_id)
           (set_X self node_id c0, pr @ [node_id]) = Some (Inr (s1, p1))"
        by (auto simp: nodes_getitem_def cache_def split: sum.splits option.splits)
      from run inn None False c0 bc obtain c where c: "cache s1 node_id = Some c"
        by (auto simp: nodes_getitem_def cache_def split: option.splits)
      from run inn None False c0 bc c obtain m where m: "build_metafeatures env s1 c y = Inr m"
        by (auto simp: nodes_getitem_def cache_def split: sum.splits)
      from run inn None False c0 bc c m
      have rest: "self' = set_METAFEATURES s1 node_id m \<and> pr' = p1 \<and>
         (issubdtype node_id y \<longrightarrow>
            (\<exists>own. own_rows env s1 X y node_id = Inr own \<and> features_add c own = Inr ret)) \<and>
         (\<not> issubdtype node_id y \<longrightarrow> ret = c)"
        by (auto simp: nodes_getitem_def cache_def own_rows_def split: sum.splits if_splits)
      with inn None False c0 bc c m show ?thesis by auto
    qed
  qed
qed


lemma own_rows_cong:
  "feature_extraction s' = feature_extraction s \<Longrightarrow> own_rows env s' X y n = own_rows env s X y n"
  by (simp add: own_rows_def build_features_def)

lemma returned_for_cong:
  assumes "cache s' n = cache s n" and "successors (graph s') = successors (graph s)"
    and "feature_extraction s' = feature_extraction s"
  shows "returned_for env s' X y n r = returned_for env s X y n r"
  using assms own_rows_cong[OF assms(3), of env X y n]
  by (simp add: returned_for_def split: option.splits)

text \<open>
  What a visit guarantees: the topology and the mode are untouched, every cache that was
  there is kept, the nodes it logs are new, distinct and cached afterwards, and the
  returned value is the one \<open>returned_for\<close> describes.
\<close>

lemma build_children_inv:
  assumes IH: "\<And>n s p r s' p'.
      recursive_build_features fuel env X y n (s, p) = Some (Inr (r, (s', p'))) \<Longrightarrow>
      nodes (graph s') = nodes (graph s) \<and> successors (graph s') = successors (graph s) \<and>
      feature_extraction s' = feature_extraction s \<and>
      (\<forall>k c. cache s k = Some c \<longrightarrow> cache s' k = Some c) \<and>
      (\<exists>new. p' = p @ new \<and> distinct new \<and> (\<forall>k\<in>set new. cache s k = None \<and> cache s' k \<noteq> None)) \<and>
      returned_for env s' X y n r"
  shows "build_children fuel env X y node_id cs (s, p) = Some (Inr (s', p')) \<Longrightarrow>
      nodes (graph s') = nodes (graph s) \<and> successors (graph s') = successors (graph s) \<and>
      feature_extraction s' = feature_extraction s \<and>
      (\<forall>k c. k \<noteq> node_id \<longrightarrow> cache s k = Some c \<longrightarrow> cache s' k = Some c) \<and>
      (cache s node_id \<noteq> None \<longrightarrow> cache s' node_id \<noteq> None) \<and>
      (\<exists>new. p' = p @ new \<and> distinct new \<and> (\<forall>k\<in>set new. cache s k = None \<and> cache s' k \<noteq> None)) \<and>
      (node_id \<notin> set cs \<longrightarrow> (\<forall>old. cache s node_id = Some old \<longrightarrow>
         (\<exists>rs c. length rs = length cs \<and>
            (\<forall>i<length cs. returned_for env s' X y (cs ! i) (rs ! i)) \<and>
            sum_features old rs = Inr c \<and> cache s' node_id = Some c)))"
proof (induction cs arbitrary: s p)
  case Nil
  then show ?case by simp
next
  case (Cons ch cs)
  from Cons.prems obtain old where old: "cache s node_id = Some old"
    by (auto simp: cache_def split: option.splits)
  from Cons.prems old obtain r s1 p1 where
    rb: "recursive_build_features fuel env X y ch (s, p) = Some (Inr (r, (s1, p1)))"
    by (auto simp: cache_def split: option.splits sum.splits)
  from Cons.prems old rb obtain sm where sm: "features_add old r = Inr sm"
    by (auto simp: cache_def split: sum.splits)
  define s2 where "s2 = set_X s1 node_id sm"
  from Cons.prems old rb sm have
    bc: "build_children fuel env X y node_id cs (s2, p1) = Some (Inr (s', p'))"
    by (simp add: cache_def s2_def)
  from IH[OF rb] have f1: "nodes (graph s1) = nodes (graph s)"
      "successors (graph s1) = successors (graph s)"
      "feature_extraction s1 = feature_extraction s"
    and k1: "\<forall>k c. cache s k = Some c \<longrightarrow> cache s1 k = Some c"
    and r1: "returned_for env s1 X y ch r"
    by auto
  from IH[OF rb] obtain new1 where n1: "p1 = p @ new1" "distinct new1"
      "\<forall>k\<in>set new1. cache s k = None \<and> cache s1 k \<noteq> None"
    by auto
  from Cons.IH[OF bc] have f2: "nodes (graph s') = nodes (graph s2)"
      "successors (graph s') = successors (graph s2)"
      "feature_extraction s' = feature_extraction s2"
    and k2: "\<forall>k c. k \<noteq> node_id \<longrightarrow> cache s2 k = Some c \<longrightarrow> cache s' k = Some c"
    and o2: "cache s2 node_id \<noteq> None \<longrightarrow> cache s' node_id \<noteq> None"
    and ret2: "node_id \<notin> set cs \<longrightarrow> (\<forall>old. cache s2 node_id = Some old \<longrightarrow>
         (\<exists>rs c. length rs = length cs \<and>
            (\<forall>i<length cs. returned_for env s' X y (cs ! i) (rs ! i)) \<and>
            sum_features old rs = Inr c \<and> cache s' node_id = Some c))"
    by auto
  from Cons.IH[OF bc] obtain new2 where n2: "p' = p1 @ new2" "distinct new2"
      "\<forall>k\<in>set new2. cache s2 k = None \<and> cache s' k \<noteq> None"
    by auto
  have c2: "\<And>k. cache s2 k = (if k = node_id then Some sm else cache s1 k)"
    by (simp add: s2_def)
  have top: "nodes (graph s') = nodes (graph s)" "successors (graph s') = successors (graph s)"
      "feature_extraction s' = feature_extraction s"
    using f1 f2 by (simp_all add: s2_def)
  have keep: "\<forall>k c. k \<noteq> node_id \<longrightarrow> cache s k = Some c \<longrightarrow> cache s' k = Some c"
    using k1 k2 c2 by simp
  have own: "cache s' node_id \<noteq> None"
    using o2 c2 by simp
  have stay: "\<And>k. cache s1 k \<noteq> None \<Longrightarrow> cache s' k \<noteq> None"
  proof -
    fix k assume a: "cache s1 k \<noteq> None"
    show "cache s' k \<noteq> None"
    proof (cases "k = node_id")
      case True
      with own show ?thesis by simp
    next
      case False
      from a obtain c where "cache s1 k = Some c" by auto
      with False c2 k2 have "cache s' k = Some c" by simp
      then show ?thesis by simp
    qed
  qed
  have prior: "\<And>k. cache s2 k = None \<Longrightarrow> cache s k = None"
  proof -
    fix k assume a: "cache s2 k = None"
    with c2 have "cache s1 k = None" by (auto split: if_splits)
    with k1 show "cache s k = None" by (cases "cache s k") auto
  qed
  have log: "\<exists>new. p' = p @ new \<and> distinct new \<and>
      (\<forall>k\<in>set new. cache s k = None \<and> cache s' k \<noteq> None)"
  proof (intro exI[of _ "new1 @ new2"] conjI ballI)
    show "p' = p @ new1 @ new2" using n1 n2 by simp
    have "set new1 \<inter> set new2 = {}"
    proof (rule ccontr)
      assume "set new1 \<inter> set new2 \<noteq> {}"
      then obtain k where "k \<in> set new1" "k \<in> set new2" by auto
      with n1(3) n2(3) have "cache s1 k \<noteq> None" "cache s2 k = None" by auto
      with c2 show False by (auto split: if_splits)
    qed
    with n1(2) n2(2) show "distinct (new1 @ new2)" by simp
  next
    fix k assume "k \<in> set (new1 @ new2)"
    then consider "k \<in> set new1" | "k \<in> set new2" by auto
    then show "cache s k = None"
    proof cases
      case 1 with n1(3) show ?thesis by simp
    next
      case 2 with n2(3) prior show ?thesis by simp
    qed
  next
    fix k assume "k \<in> set (new1 @ new2)"
    then consider "k \<in> set new1" | "k \<in> set new2" by auto
    then show "cache s' k \<noteq> None"
    proof cases
      case 1 with n1(3) stay show ?thesis by simp
    next
      case 2 with n2(3) show ?thesis by simp
    qed
  qed
  have ret: "node_id \<notin> set (ch # cs) \<longrightarrow> (\<forall>old. cache s node_id = Some old \<longrightarrow>
         (\<exists>rs c. length rs = length (ch # cs) \<and>
            (\<forall>i<length (ch # cs). returned_for env s' X y ((ch # cs) ! i) (rs ! i)) \<and>
            sum_features old rs = Inr c \<and> cache s' node_id = Some c))"
  proof (intro impI allI)
    fix old' assume nin: "node_id \<notin> set (ch # cs)" and "cache s node_id = Some old'"
    with old have oo: "old' = old" by simp
    from nin have ne: "ch \<noteq> node_id" and nin2: "node_id \<notin> set cs" by auto
    from ret2 nin2 c2 obtain rs c where rs: "length rs = length cs"
        "\<forall>i<length cs. returned_for env s' X y (cs ! i) (rs ! i)"
        "sum_features sm rs = Inr c" "cache s' node_id = Some c"
      by auto
    from r1 obtain cc where cc: "cache s1 ch = Some cc"
      by (auto simp: returned_for_def split: option.splits)
    with ne c2 k2 have "cache s' ch = Some cc" by simp
    with cc have same: "cache s' ch = cache s1 ch" by simp
    have "returned_for env s' X y ch r"
      using r1 returned_for_cong[OF same, of env X y r] f1 f2 by (simp add: s2_def)
    with rs have all: "\<forall>i<length (ch # cs). returned_for env s' X y ((ch # cs) ! i) ((r # rs) ! i)"
      by (auto simp: nth_Cons split: nat.splits)
    from sm rs(3) oo have "sum_features old' (r # rs) = Inr c" by simp
    with all rs(1,4)
    show "\<exists>rs c. length rs = length (ch # cs) \<and>
            (\<forall>i<length (ch # cs). returned_for env s' X y ((ch # cs) ! i) (rs ! i)) \<and>
            sum_features old' rs = Inr c \<and> cache s' node_id = Some c"
      by (intro exI[of _ "r # rs"] exI[of _ c]) simp
  qed
  from top keep own log ret show ?case by blast
qed


lemma recursive_build_features_inv:
  "recursive_build_features fuel env X y n (s, p) = Some (Inr (r, (s', p'))) \<Longrightarrow>
      nodes (graph s') = nodes (graph s) \<and> successors (graph s') = successors (graph s) \<and>
      feature_extraction s' = feature_extraction s \<and>
      (\<forall>k c. cache s k = Some c \<longrightarrow> cache s' k = Some c) \<and>
      (\<exists>new. p' = p @ new \<and> distinct new \<and> (\<forall>k\<in>set new. cache s k = None \<and> cache s' k \<noteq> None)) \<and>
      returned_for env s' X y n r"
proof (induction fuel arbitrary: n s p r s' p')
  case 0
  then show ?case by simp
next
  case (Suc fuel)
  from rbf_cases[OF Suc.prems] show ?case
  proof (elim conjE disjE exE, goal_cases)
    case 1
    note memo = 1(2-4)
    then show ?case by (simp add: returned_for_def)
  next
    case 2
    note leaf = 2(2-6)
    have "\<exists>new. p' = p @ new \<and> distinct new \<and>
        (\<forall>k\<in>set new. cache s k = None \<and> cache s' k \<noteq> None)"
      using leaf by (intro exI[of _ "[n]"]) simp
    with leaf show ?case by (auto simp: returned_for_def)
  next
    case (3 c0 s1 c m)
    note inner = 3(2-10)
    define s0 where "s0 = set_X s n c0"
    from inner(4) have bc: "build_children fuel env X y n (successors (graph s) n) (s0, p @ [n]) =
         Some (Inr (s1, p'))" by (simp add: s0_def)
    note B = build_children_inv[OF Suc.IH bc]
    from B have top1: "nodes (graph s1) = nodes (graph s0)"
        "successors (graph s1) = successors (graph s0)"
        "feature_extraction s1 = feature_extraction s0"
      and k1: "\<forall>k c. k \<noteq> n \<longrightarrow> cache s0 k = Some c \<longrightarrow> cache s1 k = Some c"
      by auto
    from B obtain new where new: "p' = (p @ [n]) @ new" "distinct new"
        "\<forall>k\<in>set new. cache s0 k = None \<and> cache s1 k \<noteq> None"
      by auto
    have c0: "\<And>k. cache s0 k = (if k = n then Some c0 else cache s k)"
      by (simp add: s0_def)
    have cs': "\<And>k. cache s' k = cache s1 k"
      using inner(7) by simp
    have top: "nodes (graph s') = nodes (graph s)" "successors (graph s') = successors (graph s)"
        "feature_extraction s' = feature_extraction s"
      using top1 inner(7) by (simp_all add: s0_def)
    have keep: "\<forall>k c. cache s k = Some c \<longrightarrow> cache s' k = Some c"
    proof (intro allI impI)
      fix k c' assume a: "cache s k = Some c'"
      with inner(1) have "k \<noteq> n" by auto
      with a c0 k1 have "cache s1 k = Some c'" by simp
      with cs' show "cache s' k = Some c'" by simp
    qed
    have log: "\<exists>new. p' = p @ new \<and> distinct new \<and>
        (\<forall>k\<in>set new. cache s k = None \<and> cache s' k \<noteq> None)"
    proof (intro exI[of _ "n # new"] conjI ballI)
      show "p' = p @ n # new" using new(1) by simp
      from new(3) c0 have "n \<notin> set new" by auto
      with new(2) show "distinct (n # new)" by simp
    next
      fix k assume "k \<in> set (n # new)"
      then consider "k = n" | "k \<in> set new" by auto
      then show "cache s k = None"
      proof cases
        case 1 with inner(1) show ?thesis by simp
      next
        case 2 with new(3) c0[of k] show ?thesis by (auto split: if_splits)
      qed
    next
      fix k assume "k \<in> set (n # new)"
      then consider "k = n" | "k \<in> set new" by auto
      then show "cache s' k \<noteq> None"
      proof cases
        case 1 with inner(5) cs' show ?thesis by simp
      next
        case 2 with new(3) cs' show ?thesis by simp
      qed
    qed
    have fe: "feature_extraction s' = feature_extraction s1"
      using inner(7) by simp
    have ret: "returned_for env s' X y n r"
    proof (cases "issubdtype n y")
      case True
      with inner(8) obtain own where "own_rows env s1 X y n = Inr own" "features_add c own = Inr r"
        by auto
      with own_rows_cong[OF fe, of env X y n] True inner(2,5) cs' top(2)
      show ?thesis by (simp add: returned_for_def)
    next
      case False
      with inner(9) inner(5) cs' show ?thesis by (simp add: returned_for_def)
    qed
    from top keep log ret show ?case by blast
  qed
qed


lemma build_children_facts:
  "build_children fuel env X y node_id cs (s, p) = Some (Inr (s', p')) \<Longrightarrow>
      nodes (graph s') = nodes (graph s) \<and> successors (graph s') = successors (graph s) \<and>
      feature_extraction s' = feature_extraction s \<and>
      (\<forall>k c. k \<noteq> node_id \<longrightarrow> cache s k = Some c \<longrightarrow> cache s' k = Some c) \<and>
      (cache s node_id \<noteq> None \<longrightarrow> cache s' node_id \<noteq> None) \<and>
      (\<exists>new. p' = p @ new \<and> distinct new \<and> (\<forall>k\<in>set new. cache s k = None \<and> cache s' k \<noteq> None)) \<and>
      (node_id \<notin> set cs \<longrightarrow> (\<forall>old. cache s node_id = Some old \<longrightarrow>
         (\<exists>rs c. length rs = length cs \<and>
            (\<forall>i<length cs. returned_for env s' X y (cs ! i) (rs ! i)) \<and>
            sum_features old rs = Inr c \<and> cache s' node_id = Some c)))"
  by (rule build_children_inv) (rule recursive_build_features_inv)

lemma train_local_classifier_cache:
  "train_local_classifier env s X y n = Inr s' \<Longrightarrow> cache s' k = cache s k"
  by (auto simp: train_local_classifier_def train_on_def fit_and_store_def cache_def
      set_CLASSIFIER_def set_attrs_def Let_def
      split: if_splits sum.splits bool.splits prod.splits features.splits)

lemma train_children_cache:
  assumes IH: "\<And>n st s' p'. recursive_train_local_classifiers fuel env X y n st = Some (Inr (s', p')) \<Longrightarrow>
      (\<forall>k. cache s' k = cache (fst st) k)"
  shows "train_children fuel env X y cs st = Some (Inr (s', p')) \<Longrightarrow> (\<forall>k. cache s' k = cache (fst st) k)"
proof (induction cs arbitrary: st)
  case Nil
  then show ?case by simp
next
  case (Cons ch cs)
  from Cons.prems obtain s1 p1 where
    r: "recursive_train_local_classifiers fuel env X y ch st = Some (Inr (s1, p1))"
    and t: "train_children fuel env X y cs (s1, p1) = Some (Inr (s', p'))"
    by (auto split: option.splits sum.splits)
  from IH[OF r] Cons.IH[OF t] show ?case by simp
qed

lemma recursive_train_cache:
  "recursive_train_local_classifiers fuel env X y n st = Some (Inr (s', p')) \<Longrightarrow>
      (\<forall>k. cache s' k = cache (fst st) k)"
proof (induction fuel arbitrary: n st s' p')
  case 0
  then show ?case by simp
next
  case (Suc fuel)
  obtain s p where st: "st = (s, p)" by (cases st)
  show ?case
  proof (cases "attr_CLASSIFIER (node_attrs (graph s) n)")
    case (Some c)
    with Suc.prems st show ?thesis
      by (auto simp: nodes_getitem_def split: if_splits)
  next
    case None
    with Suc.prems st obtain s1 where t: "train_local_classifier env s X y n = Inr s1"
      and c: "train_children fuel env X y (successors (graph s1) n) (s1, p @ [n]) = Some (Inr (s', p'))"
      by (auto simp: nodes_getitem_def split: if_splits sum.splits)
    from train_children_cache[OF Suc.IH c] train_local_classifier_cache[OF t] st
    show ?thesis by simp
  qed
qed


text \<open>
  The calls for the successors follow one another in the loop, and a call made inside a
  visit starts with every cache the visit started with. So a node whose cache a call
  inside a visit builds keeps, to the end of that visit, the cache that call left.
\<close>

lemma build_children_append:
  "build_children fuel env X y n (xs @ zs) st =
     (case build_children fuel env X y n xs st of
        None \<Rightarrow> None
      | Some (Inl e) \<Rightarrow> Some (Inl e)
      | Some (Inr st') \<Rightarrow> build_children fuel env X y n zs st')"
proof (induction xs arbitrary: st)
  case Nil
  show ?case by simp
next
  case (Cons a xs)
  obtain s p where st: "st = (s, p)" by (cases st)
  show ?case unfolding st
    by (simp add: Cons.IH split: option.splits sum.splits prod.splits)
qed

lemma visit_in_keeps_set:
  assumes "visit_in env X y fuel n s pr fuel' n' s' pr'" "cache s k \<noteq> None"
  shows "cache s' k \<noteq> None"
  using assms
proof (induction rule: visit_in.induct)
  case (here fuel n s pr)
  then show ?case by simp
next
  case (below n s before ch after c0 fuel pr s1 p1 fuel' n' s' pr')
  from below.prems have a: "cache (set_X s n c0) k \<noteq> None" by simp
  from build_children_facts[OF below.hyps(5)] a have "cache s1 k \<noteq> None"
    by (cases "k = n") auto
  then show ?case by (rule below.IH)
qed

lemma visit_in_persists:
  assumes "visit_in env X y fuel n s pr fuel' n' s' pr'"
    and "recursive_build_features fuel env X y n (s, pr) = Some (Inr (r, (se, pe)))"
    and "cache s' n' = None"
  shows "\<exists>r' si pi. recursive_build_features fuel' env X y n' (s', pr') = Some (Inr (r', (si, pi))) \<and>
           cache si n' \<noteq> None \<and> cache se n' = cache si n'"
  using assms
proof (induction arbitrary: r se pe rule: visit_in.induct)
  case (here fuel n s pr)
  from recursive_build_features_inv[OF here.prems(1)] have "returned_for env se X y n r"
    by blast
  then have "cache se n \<noteq> None" by (auto simp: returned_for_def split: option.splits)
  with here.prems(1) show ?case by blast
next
  case (below n s before ch after c0 fuel pr s1 p1 fuel' n' s' pr')
  note run = below.prems(1)
  from rbf_cases[OF run] below.hyps(2,3,4)
  obtain s2 c m where
    bc: "build_children fuel env X y n (before @ ch # after) (set_X s n c0, pr @ [n]) =
           Some (Inr (s2, pe))"
    and se: "se = set_METAFEATURES s2 n m"
    by auto
  from bc below.hyps(5) have rest:
    "build_children fuel env X y n (ch # after) (s1, p1) = Some (Inr (s2, pe))"
    by (simp add: build_children_append)
  then obtain old rc sc pc sm where
    rc: "recursive_build_features fuel env X y ch (s1, p1) = Some (Inr (rc, (sc, pc)))"
    and af: "build_children fuel env X y n after (set_X sc n sm, pc) = Some (Inr (s2, pe))"
    by (auto split: option.splits sum.splits)
  from below.IH[OF rc below.prems(2)] obtain r' si pi where
    inner: "recursive_build_features fuel' env X y n' (s', pr') = Some (Inr (r', (si, pi)))"
    and set: "cache si n' \<noteq> None" and eq: "cache sc n' = cache si n'"
    by blast
  have "cache (set_X s n c0) n \<noteq> None" by simp
  with build_children_facts[OF below.hyps(5)] have "cache s1 n \<noteq> None" by blast
  from visit_in_keeps_set[OF below.hyps(6) this] below.prems(2) have ne: "n' \<noteq> n" by auto
  from set eq obtain v where v: "cache sc n' = Some v" by auto
  with ne have "cache (set_X sc n sm) n' = Some v" by simp
  with build_children_facts[OF af] ne have "cache s2 n' = Some v" by blast
  with se v eq have "cache se n' = cache si n'" by simp
  with inner set show ?case by blast
qed


lemma cache_after_fit_value:
  "cache_after_fit m n = Some v \<Longrightarrow> \<exists>s. m = Some (Inr s) \<and> cache s n = v"
  by (auto simp: cache_after_fit_def cache_def split: option.splits sum.splits)

text \<open>
  C7, as amended. A node's cache is built by one visit of the builder. A visit of a node
  that holds a cache returns the stored value and leaves the state and the progress as
  they were: nothing is recomputed. While the visit that builds an internal node runs,
  the node's own attribute is written several times, first with the empty feature set
  and then with the running sum, once for each successor. Once that visit has returned,
  the attribute keeps its value to the end of the fit: for every call of the builder made
  during the fit for a node without a cache, the call returns, leaves the node a cache,
  and the fitted model holds that same cache for the node. The builder logs no node
  twice, and the training pass changes no cache.
\<close>

theorem feature_cache_kept_after_visit:
  "(node_id \<in> set (nodes (graph s)) \<and> cache s node_id = Some c \<longrightarrow>
      recursive_build_features (Suc f) env X y node_id (s, pr) = Some (Inr (c, (s, pr)))) \<and>
   (feature_extraction self = ''preprocessed'' \<and> fit fuel env self X y = Some (Inr s3) \<and>
    nx_is_tree (class_graph env self y) = Inr t \<and>
    visit_in env X y fuel (root self) (fit_start env self y t) [] fuel' n' s' pr' \<and>
    cache s' n' = None \<longrightarrow>
      (\<exists>r' si pi.
         recursive_build_features fuel' env X y n' (s', pr') = Some (Inr (r', (si, pi))) \<and>
         cache si n' \<noteq> None \<and> cache s3 n' = cache si n')) \<and>
   (feature_extraction self = ''preprocessed'' \<and> fit fuel env self X y = Some (Inr s3) \<and>
    nx_is_tree (class_graph env self y) = Inr t \<longrightarrow>
      (\<exists>r0 s0 p0.
         recursive_build_features fuel env X y (root self) (fit_start env self y t, []) =
           Some (Inr (r0, (s0, p0))) \<and>
         distinct p0 \<and> (\<forall>k. cache s3 k = cache s0 k)))"
proof (intro conjI impI)
  assume "node_id \<in> set (nodes (graph s)) \<and> cache s node_id = Some c"
  then show "recursive_build_features (Suc f) env X y node_id (s, pr) =
        Some (Inr (c, (s, pr)))"
    by (simp add: nodes_getitem_def cache_def)
next
  assume a: "feature_extraction self = ''preprocessed'' \<and> fit fuel env self X y = Some (Inr s3) \<and>
    nx_is_tree (class_graph env self y) = Inr t \<and>
    visit_in env X y fuel (root self) (fit_start env self y t) [] fuel' n' s' pr' \<and>
    cache s' n' = None"
  then obtain r0 s0 p0 where
    b: "recursive_build_features fuel env X y (root self) (fit_start env self y t, []) =
           Some (Inr (r0, (s0, p0)))"
    by (auto simp: fit_def split: option.splits sum.splits)
  from a b obtain p3 where
    tr: "recursive_train_local_classifiers fuel env X y (root self) (s0, []) = Some (Inr (s3, p3))"
    by (auto simp: fit_def split: option.splits sum.splits)
  from a have v: "visit_in env X y fuel (root self) (fit_start env self y t) [] fuel' n' s' pr'"
    and fr: "cache s' n' = None" by simp_all
  from visit_in_persists[OF v b fr] obtain r' si pi where
    i: "recursive_build_features fuel' env X y n' (s', pr') = Some (Inr (r', (si, pi)))"
    and ne: "cache si n' \<noteq> None" and eq: "cache s0 n' = cache si n'"
    by blast
  from recursive_train_cache[OF tr] eq have "cache s3 n' = cache si n'" by simp
  with i ne show "\<exists>r' si pi.
         recursive_build_features fuel' env X y n' (s', pr') = Some (Inr (r', (si, pi))) \<and>
         cache si n' \<noteq> None \<and> cache s3 n' = cache si n'"
    by blast
next
  assume a: "feature_extraction self = ''preprocessed'' \<and> fit fuel env self X y = Some (Inr s3) \<and>
    nx_is_tree (class_graph env self y) = Inr t"
  then obtain r0 s0 p0 where
    b: "recursive_build_features fuel env X y (root self) (fit_start env self y t, []) =
           Some (Inr (r0, (s0, p0)))"
    by (auto simp: fit_def split: option.splits sum.splits)
  from a b obtain p3 where
    tr: "recursive_train_local_classifiers fuel env X y (root self) (s0, []) = Some (Inr (s3, p3))"
    by (auto simp: fit_def split: option.splits sum.splits)
  from recursive_build_features_inv[OF b] obtain new where
    "p0 = [] @ new" "distinct new"
    by blast
  then have "distinct p0" by simp
  moreover from recursive_train_cache[OF tr] have "\<forall>k. cache s3 k = cache s0 k" by simp
  ultimately show "\<exists>r0 s0 p0.
         recursive_build_features fuel env X y (root self) (fit_start env self y t, []) =
           Some (Inr (r0, (s0, p0))) \<and>
         distinct p0 \<and> (\<forall>k. cache s3 k = cache s0 k)"
    using b by blast
qed

theorem feature_cache_kept_after_visit_witness:
  "recursive_build_features (Suc 0) (ref_env lookup_fit ()) (CsrX rows_AB) (StrLabels labels_AB)
     (NStr ''B'') (set_X scenario_start (NStr ''B'') (CsrX [[0, 0], [0, 0], [1, 1]]), []) =
     Some (Inr (CsrX [[0, 0], [0, 0], [1, 1]],
                (set_X scenario_start (NStr ''B'') (CsrX [[0, 0], [0, 0], [1, 1]]), []))) \<and>
   (\<exists>s3 r' si pi.
      scenario_fit = Some (Inr s3) \<and>
      recursive_build_features 2 (ref_env lookup_fit ()) (CsrX rows_AB) (StrLabels labels_AB)
        (NStr ''A'')
        (set_X scenario_start (NStr ''root'') (CsrX [[0, 0], [0, 0], [0, 0]]), [NStr ''root'']) =
        Some (Inr (r', (si, pi))) \<and>
      cache si (NStr ''A'') = Some (CsrX [[1, 0], [0, 1], [0, 0]]) \<and>
      cache s3 (NStr ''A'') = Some (CsrX [[1, 0], [0, 1], [0, 0]])) \<and>
   (\<exists>s3 r0 s0 p0.
      scenario_fit = Some (Inr s3) \<and>
      recursive_build_features 3 (ref_env lookup_fit ()) (CsrX rows_AB) (StrLabels labels_AB)
        (NStr ''root'') (scenario_start, []) = Some (Inr (r0, (s0, p0))) \<and> distinct p0 \<and>
      cache s0 (NStr ''root'') = Some (CsrX [[1, 0], [0, 1], [1, 1]]))"
proof -
  let ?env = "ref_env lookup_fit () :: (unit, unit) env"
  let ?X = "CsrX rows_AB :: unit features"
  let ?y = "StrLabels labels_AB"
  let ?Z = "CsrX [[0, 0], [0, 0], [0, 0]] :: unit features"
  have oA: "cache_after_fit scenario_fit (NStr ''A'') = Some (Some (CsrX [[1, 0], [0, 1], [0, 0]]))"
    by code_simp
  have oR: "cache_after_fit scenario_fit (NStr ''root'') = Some (Some (CsrX [[1, 0], [0, 1], [1, 1]]))"
    by code_simp
  from cache_after_fit_value[OF oA] obtain s3 where
    f: "scenario_fit = Some (Inr s3)"
    and cA: "cache s3 (NStr ''A'') = Some (CsrX [[1, 0], [0, 1], [0, 0]])"
    by blast
  from cache_after_fit_value[OF oR] have
    cR: "cache s3 (NStr ''root'') = Some (CsrX [[1, 0], [0, 1], [1, 1]])"
    unfolding f by simp
  have fe: "feature_extraction lcpn_AB = ''preprocessed''" by code_simp
  have rt: "root lcpn_AB = NStr ''root''" by code_simp
  have tree: "nx_is_tree (class_graph ?env lcpn_AB ?y) = Inr True" by code_simp
  have start: "fit_start ?env lcpn_AB ?y True = scenario_start" by (simp add: scenario_start_def)
  have fit3: "fit 3 ?env lcpn_AB ?X ?y = Some (Inr s3)" using f by (simp add: scenario_fit_def)
  have n: "nodes (graph scenario_start) =
      [NStr ''root'', NStr ''A'', NStr ''B'', NStr ''A1'', NStr ''A2'']" by code_simp
  have c0: "cache scenario_start k = None" for k
    by (simp add: scenario_start_def fit_start_def class_graph_def DiGraph_def cache_def)
  have su: "successors (graph scenario_start) (NStr ''root'') = [] @ NStr ''A'' # [NStr ''B'']"
    by code_simp
  have ef: "empty_features scenario_start ?X = Inr ?Z" by code_simp
  have v: "visit_in ?env ?X ?y (Suc 2) (NStr ''root'') scenario_start [] 2 (NStr ''A'')
             (set_X scenario_start (NStr ''root'') ?Z) ([] @ [NStr ''root''])"
    by (rule visit_in.below[OF _ c0 su ef _ visit_in.here]) (simp_all add: n)
  have fr: "cache (set_X scenario_start (NStr ''root'') ?Z) (NStr ''A'') = None"
    by (simp add: c0)
  note T = feature_cache_kept_after_visit
    [where env = ?env and X = ?X and y = ?y and self = lcpn_AB and fuel = 3 and ?s3.0 = s3
       and t = True and fuel' = 2 and n' = "NStr ''A''"
       and s' = "set_X scenario_start (NStr ''root'') ?Z" and pr' = "[NStr ''root'']"
       and s = "set_X scenario_start (NStr ''B'') (CsrX [[0, 0], [0, 0], [1, 1]])"
       and node_id = "NStr ''B''" and c = "CsrX [[0, 0], [0, 0], [1, 1]]" and f = 0 and pr = "[]"]
  from T have a: "recursive_build_features (Suc 0) ?env ?X ?y
     (NStr ''B'') (set_X scenario_start (NStr ''B'') (CsrX [[0, 0], [0, 0], [1, 1]]), []) =
     Some (Inr (CsrX [[0, 0], [0, 0], [1, 1]],
                (set_X scenario_start (NStr ''B'') (CsrX [[0, 0], [0, 0], [1, 1]]), [])))"
    by (simp add: n)
  from T fe fit3 tree rt start v fr obtain r' si pi where
    i: "recursive_build_features 2 ?env ?X ?y (NStr ''A'')
          (set_X scenario_start (NStr ''root'') ?Z, [NStr ''root'']) = Some (Inr (r', (si, pi)))"
    and e: "cache s3 (NStr ''A'') = cache si (NStr ''A'')"
    by (auto simp: eval_nat_numeral)
  from T fe fit3 tree rt start obtain r0 s0 p0 where
    b: "recursive_build_features 3 ?env ?X ?y (NStr ''root'') (scenario_start, []) =
          Some (Inr (r0, (s0, p0)))"
    and d: "distinct p0" and k: "\<forall>k. cache s3 k = cache s0 k"
    by auto
  from i e cA f have B: "\<exists>s3 r' si pi.
      scenario_fit = Some (Inr s3) \<and>
      recursive_build_features 2 ?env ?X ?y (NStr ''A'')
        (set_X scenario_start (NStr ''root'') ?Z, [NStr ''root'']) = Some (Inr (r', (si, pi))) \<and>
      cache si (NStr ''A'') = Some (CsrX [[1, 0], [0, 1], [0, 0]]) \<and>
      cache s3 (NStr ''A'') = Some (CsrX [[1, 0], [0, 1], [0, 0]])"
    by auto
  from b d k cR f have C: "\<exists>s3 r0 s0 p0.
      scenario_fit = Some (Inr s3) \<and>
      recursive_build_features 3 ?env ?X ?y (NStr ''root'') (scenario_start, []) =
        Some (Inr (r0, (s0, p0))) \<and> distinct p0 \<and>
      cache s0 (NStr ''root'') = Some (CsrX [[1, 0], [0, 1], [1, 1]])"
    by auto
  show ?thesis by (rule conjI[OF a conjI[OF B C]])
qed

text \<open>
  The claim as first stated lets no cache attribute be rewritten once it is written. In
  the fit of the example scenario the root's attribute is written with the zero matrix
  when its visit starts, rewritten with the rows below A after the call for A, and
  rewritten again with all three rows after the call for B, which is the value the fitted
  model holds.
\<close>

theorem cache_rewritten_during_visit_counterexample:
  "empty_features scenario_start (CsrX rows_AB) = Inr (CsrX [[0, 0], [0, 0], [0, 0]]) \<and>
   cache_after_loop
     (build_children 2 (ref_env lookup_fit ()) (CsrX rows_AB) (StrLabels labels_AB) (NStr ''root'')
        [] (set_X scenario_start (NStr ''root'') (CsrX [[0, 0], [0, 0], [0, 0]]), [NStr ''root'']))
     (NStr ''root'') = Some (Some (CsrX [[0, 0], [0, 0], [0, 0]])) \<and>
   cache_after_loop
     (build_children 2 (ref_env lookup_fit ()) (CsrX rows_AB) (StrLabels labels_AB) (NStr ''root'')
        [NStr ''A''] (set_X scenario_start (NStr ''root'') (CsrX [[0, 0], [0, 0], [0, 0]]), [NStr ''root'']))
     (NStr ''root'') = Some (Some (CsrX [[1, 0], [0, 1], [0, 0]])) \<and>
   cache_after_loop
     (build_children 2 (ref_env lookup_fit ()) (CsrX rows_AB) (StrLabels labels_AB) (NStr ''root'')
        [NStr ''A'', NStr ''B'']
        (set_X scenario_start (NStr ''root'') (CsrX [[0, 0], [0, 0], [0, 0]]), [NStr ''root'']))
     (NStr ''root'') = Some (Some (CsrX [[1, 0], [0, 1], [1, 1]])) \<and>
   cache_after_fit scenario_fit (NStr ''root'') = Some (Some (CsrX [[1, 0], [0, 1], [1, 1]])) \<and>
   CsrX [[0, 0], [0, 0], [0, 0]] \<noteq> (CsrX [[1, 0], [0, 1], [0, 0]] :: unit features) \<and>
   CsrX [[1, 0], [0, 1], [0, 0]] \<noteq> (CsrX [[1, 0], [0, 1], [1, 1]] :: unit features)"
  by code_simp

text \<open>
  C2, as amended. After the first visit of an internal node (one that is not its own
  successor), its cache is the sum, from the empty feature set on, of the values the
  builder returned for its successors: for each successor its cache or, for an internal
  successor of the label array's type, its cache plus the rows labelled with that
  successor. The rows labelled with the node itself, when the node is of the label array's
  type, are added to the value the visit returns to the parent, not to the node's cache.
\<close>

theorem internal_node_cache:
  assumes run: "recursive_build_features (Suc fuel) env X y node_id (self, pr) =
                  Some (Inr (ret, (self', pr')))"
    and none: "cache self node_id = None"
    and inner: "successors (graph self) node_id \<noteq> []"
    and loop: "node_id \<notin> set (successors (graph self) node_id)"
  shows "\<exists>c0 rs c. empty_features self X = Inr c0 \<and>
      length rs = length (successors (graph self) node_id) \<and>
      (\<forall>i<length rs. returned_for env self' X y (successors (graph self) node_id ! i) (rs ! i)) \<and>
      sum_features c0 rs = Inr c \<and> cache self' node_id = Some c \<and>
      (if issubdtype node_id y
       then (\<exists>own. own_rows env self' X y node_id = Inr own \<and> features_add c own = Inr ret)
       else ret = c)"
proof -
  from rbf_cases[OF run] show ?thesis
  proof (elim conjE disjE exE, goal_cases)
    case 1
    with none show ?case by simp
  next
    case 2
    with inner show ?case by simp
  next
    case (3 c0 s1 c m)
    note c0 = 3(4) and bc = 3(5) and c = 3(6) and s' = 3(8) and own = 3(9) and plain = 3(10)
    have "cache (set_X self node_id c0) node_id = Some c0" by simp
    with build_children_facts[OF bc] loop obtain rs c' where
      rs: "length rs = length (successors (graph self) node_id)"
        "\<forall>i<length (successors (graph self) node_id).
           returned_for env s1 X y (successors (graph self) node_id ! i) (rs ! i)"
        "sum_features c0 rs = Inr c'" "cache s1 node_id = Some c'"
      by blast
    from rs(4) c have cc: "c' = c" by simp
    have same: "\<And>k. cache self' k = cache s1 k"
      "successors (graph self') = successors (graph s1)"
      "feature_extraction self' = feature_extraction s1"
      using s' by simp_all
    have r': "\<forall>i<length rs.
        returned_for env self' X y (successors (graph self) node_id ! i) (rs ! i)"
      using rs(1,2) returned_for_cong[OF same(1) same(2) same(3)] by simp
    have o': "own_rows env self' X y node_id = own_rows env s1 X y node_id"
      using own_rows_cong[OF same(3)] .
    show ?case
      using c0 rs(1) r' rs(3) cc c same(1) own plain o'
      by (intro exI[of _ c0] exI[of _ rs] exI[of _ c]) auto
  qed
qed

theorem internal_node_cache_witness:
  "map_option (map_sum id fst) starved_build = Some (Inr (CsrX [[1, 0], [0, 0]])) \<and>
   map_option (map_sum id (\<lambda>r. cache (fst (snd r)) (NStr ''A''))) starved_build =
     Some (Inr (Some (CsrX [[0, 0], [0, 0]]))) \<and>
   cache (walker_AB ''mlnp'' SCNone) (NStr ''A'') = None \<and>
   successors (graph (walker_AB ''mlnp'' SCNone)) (NStr ''A'') = [NStr ''A1'', NStr ''A2''] \<and>
   (\<exists>s' p' c0 rs c. starved_build = Some (Inr (CsrX [[1, 0], [0, 0]], (s', p'))) \<and>
      length rs = 2 \<and> sum_features c0 rs = Inr c \<and> cache s' (NStr ''A'') = Some c)"
proof -
  have o1: "map_option (map_sum id fst) starved_build = Some (Inr (CsrX [[1, 0], [0, 0]]))"
    by code_simp
  have o2: "map_option (map_sum id (\<lambda>r. cache (fst (snd r)) (NStr ''A''))) starved_build =
     Some (Inr (Some (CsrX [[0, 0], [0, 0]])))"
    by code_simp
  from run_value[OF o1] obtain s' p' where
    run: "starved_build = Some (Inr (CsrX [[1, 0], [0, 0]], (s', p')))"
    by blast
  have n: "cache (walker_AB ''mlnp'' SCNone) (NStr ''A'') = None"
    by (rule walker_AB_cache)
  have i: "successors (graph (walker_AB ''mlnp'' SCNone)) (NStr ''A'') \<noteq> []"
    by (simp add: walker_AB_successors)
  have l: "NStr ''A'' \<notin> set (successors (graph (walker_AB ''mlnp'' SCNone)) (NStr ''A''))"
    by (simp add: walker_AB_successors)
  from internal_node_cache[OF run[unfolded starved_build_def] n i l] obtain c0 rs c where
    f: "length rs = length (successors (graph (walker_AB ''mlnp'' SCNone)) (NStr ''A''))"
      "sum_features c0 rs = Inr c" "cache s' (NStr ''A'') = Some c"
    by blast
  from f(1) have "length rs = 2" by (simp add: walker_AB_successors)
  with run f(2,3) have
    "\<exists>s' p' c0 rs c. starved_build = Some (Inr (CsrX [[1, 0], [0, 0]], (s', p'))) \<and>
      length rs = 2 \<and> sum_features c0 rs = Inr c \<and> cache s' (NStr ''A'') = Some c"
    by blast
  then show ?thesis
    by (intro conjI o1 o2 n walker_AB_successors)
qed

text \<open>
  The claim as first stated stores the rows labelled with an intermediate node in that
  node's cache, and makes a node's cache the union of its children's caches. After a fit
  on two rows labelled A and B, row 0 is labelled A and is absent from the cache of A,
  which is all zero; the cache of the root holds it, so it is not the sum of the caches
  of A and B.
\<close>

theorem own_rows_not_cached_counterexample:
  "flatnonzero_eq (StrLabels [''A'', ''B'']) (NStr ''A'') = [0] \<and>
   cache_after_fit starved_fit (NStr ''A'') = Some (Some (CsrX [[0, 0], [0, 0]])) \<and>
   cache_after_fit starved_fit (NStr ''B'') = Some (Some (CsrX [[0, 0], [0, 1]])) \<and>
   cache_after_fit starved_fit (NStr ''root'') = Some (Some (CsrX [[1, 0], [0, 1]])) \<and>
   features_add (CsrX [[0, 0], [0, 0]]) (CsrX [[0, 0], [0, 1]]) =
     (Inr (CsrX [[0, 0], [0, 1]]) :: error + unit features) \<and>
   CsrX [[1, 0], [0, 1]] \<noteq> (CsrX [[0, 0], [0, 1]] :: unit features)"
  by code_simp

section \<open>The example scenario\<close>





lemma length_masked [simp]: "length (masked L rows ys) = length rows"
  by (simp add: masked_def)

lemma nth_masked:
  "i < length rows \<Longrightarrow>
   masked L rows ys ! i = (if ys ! i \<in> L then rows ! i else replicate (length (rows ! i)) 0)"
  by (simp add: masked_def)

lemma same_shape_masked: "same_shape (masked L rows ys) (masked M rows ys)"
  by (simp add: same_shape_def list_all2_conv_all_nth nth_masked)

lemma map2_add_zero:
  "map2 (+) r (replicate (length r) (0::real)) = r"
  "map2 (+) (replicate (length r) (0::real)) r = r"
  "map2 (+) (replicate n (0::real)) (replicate n 0) = replicate n 0"
  by (rule nth_equalityI; simp)+

lemma add_masked:
  assumes "L \<inter> M = {}"
  shows "map2 (map2 (+)) (masked L rows ys) (masked M rows ys) = masked (L \<union> M) rows ys"
proof (rule nth_equalityI)
  show "length (map2 (map2 (+)) (masked L rows ys) (masked M rows ys)) =
        length (masked (L \<union> M) rows ys)" by simp
next
  fix i assume "i < length (map2 (map2 (+)) (masked L rows ys) (masked M rows ys))"
  then have i: "i < length rows" by simp
  from assms have "\<not> (ys ! i \<in> L \<and> ys ! i \<in> M)" by auto
  with i
  show "map2 (map2 (+)) (masked L rows ys) (masked M rows ys) ! i =
        masked (L \<union> M) rows ys ! i"
    by (auto simp: nth_masked map2_add_zero)
qed

lemma features_add_masked:
  "L \<inter> M = {} \<Longrightarrow>
   features_add (CsrX (masked L rows ys)) (CsrX (masked M rows ys)) =
     Inr (CsrX (masked (L \<union> M) rows ys))"
  by (simp add: same_shape_masked add_masked)




















lemma stored_frame [simp]:
  "nodes (graph (stored s n e)) = nodes (graph s)"
  "successors (graph (stored s n e)) = successors (graph s)"
  "feature_extraction (stored s n e) = feature_extraction s"
  "algorithm (stored s n e) = algorithm s"
  "is_tree (stored s n e) = is_tree s"
  "mlb_opt (stored s n e) = mlb_opt s"
  "base_estimator (stored s n e) = base_estimator s"
  "classes (stored s n e) = classes s"
  "root (stored s n e) = root s"
  "prediction_depth (stored s n e) = prediction_depth s"
  "use_decision_function (stored s n e) = use_decision_function s"
  "cache (stored s n e) m = cache s m"
  "attr_CLASSIFIER (node_attrs (graph (stored s n e)) m) =
     (if m = n then Some e else attr_CLASSIFIER (node_attrs (graph s) m))"
  by (simp_all add: stored_def set_CLASSIFIER_def set_attrs_def cache_def)



lemma set_fields [simp]:
  "algorithm (set_X s n c) = algorithm s"
  "is_tree (set_X s n c) = is_tree s"
  "mlb_opt (set_X s n c) = mlb_opt s"
  "base_estimator (set_X s n c) = base_estimator s"
  "classes (set_X s n c) = classes s"
  "root (set_X s n c) = root s"
  "prediction_depth (set_X s n c) = prediction_depth s"
  "use_decision_function (set_X s n c) = use_decision_function s"
  "attr_CLASSIFIER (node_attrs (graph (set_X s n c)) m) = attr_CLASSIFIER (node_attrs (graph s) m)"
  "algorithm (set_METAFEATURES s n mf) = algorithm s"
  "is_tree (set_METAFEATURES s n mf) = is_tree s"
  "mlb_opt (set_METAFEATURES s n mf) = mlb_opt s"
  "base_estimator (set_METAFEATURES s n mf) = base_estimator s"
  "classes (set_METAFEATURES s n mf) = classes s"
  "root (set_METAFEATURES s n mf) = root s"
  "prediction_depth (set_METAFEATURES s n mf) = prediction_depth s"
  "use_decision_function (set_METAFEATURES s n mf) = use_decision_function s"
  "attr_CLASSIFIER (node_attrs (graph (set_METAFEATURES s n mf)) m) =
     attr_CLASSIFIER (node_attrs (graph s) m)"
  by (simp_all add: set_X_def set_METAFEATURES_def set_attrs_def)














end
